theory Spec2Isabelle
  imports Complex_Main "HOL-Library.Word" "HOL-Library.Sublist" "HOL-Library.Extended_Nat"
begin

section \<open>The PDF annotator of AiAnnotate: text matching and annotation placement\<close>

text \<open>
  A shallow embedding of \<^verbatim>\<open>server/src/utils/pdfAnnotator.ts\<close> and of the types and
  defaults of \<^verbatim>\<open>server/src/types/annotations.ts\<close>.

  \<^item> A JavaScript string is a sequence of UTF-16 code units: a list of 16-bit words.
  \<^item> JavaScript numbers that the code only uses as indices, lengths and page numbers are
    \<open>int\<close> or \<open>nat\<close>. The tolerance is a \<open>real\<close>, the number as the request or the
    source text gives it; the code holds the double nearest to it and rounds the product
    that it forms with it, which \<open>toDouble\<close> models. The page sizes and the coordinates
    drawn are \<open>real\<close> without rounding: no claim depends on them.
  \<^item> An optional field \<^verbatim>\<open>f?: T\<close> is a field of type \<open>T option\<close>.
  \<^item> The calls to \<^verbatim>\<open>console.log\<close> are left out: they have no effect on any result.
  \<^item> What the code takes from the JavaScript runtime and from pdf-lib without defining it
    (\<^verbatim>\<open>String.prototype.toLowerCase\<close>, which texts the embedded font can encode and
    how wide they are) is a parameter, the record \<open>runtime\<close>.
\<close>

subsection \<open>Strings\<close>

type_synonym jschar = "16 word"
type_synonym jsstring = "jschar list"

text \<open>An ASCII literal as a JavaScript string.\<close>

definition js :: "string \<Rightarrow> jsstring" where
  "js s = map of_char s"

text \<open>
  The characters matched by \<^verbatim>\<open>\s\<close> in a regular expression and removed by
  \<^verbatim>\<open>trim()\<close>: ECMAScript's WhiteSpace and LineTerminator.
\<close>

definition isWhitespace :: "jschar \<Rightarrow> bool" where
  "isWhitespace c \<longleftrightarrow>
     c = 0x09 \<or> c = 0x0A \<or> c = 0x0B \<or> c = 0x0C \<or> c = 0x0D \<or> c = 0x20 \<or> c = 0xA0
     \<or> c = 0x1680 \<or> (0x2000 \<le> c \<and> c \<le> 0x200A) \<or> c = 0x2028 \<or> c = 0x2029
     \<or> c = 0x202F \<or> c = 0x205F \<or> c = 0x3000 \<or> c = 0xFEFF"

text \<open>\<^verbatim>\<open>s.replace(/\s+/g, ' ')\<close>: every maximal run of whitespace becomes one space.\<close>

function collapseWhitespace :: "jsstring \<Rightarrow> jsstring" where
  "collapseWhitespace [] = []"
| "collapseWhitespace (c # cs) =
     (if isWhitespace c then 0x20 # collapseWhitespace (dropWhile isWhitespace cs)
      else c # collapseWhitespace cs)"
  by pat_completeness auto
termination
  by (relation "measure length") (auto simp: less_Suc_eq_le length_dropWhile_le)

text \<open>\<^verbatim>\<open>s.replace(/[...]/g, r)\<close> for a character class and a one-character replacement.\<close>

definition replaceChars :: "jschar list \<Rightarrow> jschar \<Rightarrow> jsstring \<Rightarrow> jsstring" where
  "replaceChars cls r s = map (\<lambda>c. if c \<in> set cls then r else c) s"

definition trim :: "jsstring \<Rightarrow> jsstring" where
  "trim s = rev (dropWhile isWhitespace (rev (dropWhile isWhitespace s)))"

text \<open>
  \<^verbatim>\<open>s.indexOf(p)\<close>: the least index at which \<open>p\<close> occurs in \<open>s\<close>, or \<open>-1\<close>.
  The second function carries the index of the position being tried.
\<close>

fun indexOfFrom :: "nat \<Rightarrow> jsstring \<Rightarrow> jsstring \<Rightarrow> int" where
  "indexOfFrom k [] p = (if p = [] then int k else - 1)"
| "indexOfFrom k (c # cs) p =
     (if prefix p (c # cs) then int k else indexOfFrom (Suc k) cs p)"

definition indexOf :: "jsstring \<Rightarrow> jsstring \<Rightarrow> int" where
  "indexOf s p = indexOfFrom 0 s p"

text \<open>
  \<^verbatim>\<open>s.substring(a, b)\<close>: both arguments are clamped to \<open>[0, length s]\<close> and swapped
  when the first is the larger.
\<close>

definition substring :: "jsstring \<Rightarrow> int \<Rightarrow> int \<Rightarrow> jsstring" where
  "substring s a b =
     (let n = int (length s);
          a' = max 0 (min a n);
          b' = max 0 (min b n);
          lo = min a' b';
          hi = max a' b'
      in take (nat (hi - lo)) (drop (nat lo) s))"

text \<open>\<^verbatim>\<open>s.split(' ')\<close>: the pieces between single spaces; never the empty list.\<close>

fun splitSpace :: "jsstring \<Rightarrow> jsstring list" where
  "splitSpace [] = [[]]"
| "splitSpace (c # cs) =
     (if c = 0x20 then [] # splitSpace cs
      else (case splitSpace cs of [] \<Rightarrow> [[c]] | w # ws \<Rightarrow> (c # w) # ws))"

subsection \<open>Numbers\<close>

text \<open>
  A double has a significand of 53 bits. \<open>toDouble x\<close> is the double nearest to \<open>x\<close>,
  a tie going to the even significand, as IEEE 754 rounds a literal and the result of a
  multiplication: with \<open>e\<close> the exponent of \<open>x\<close> (\<open>2 ^ e \<le> \<bar>x\<bar> < 2 ^ (e + 1)\<close>), and at
  least \<open>-1022\<close> (below it the doubles are subnormal), the doubles around \<open>x\<close> are the
  multiples of \<open>2 ^ (e - 52)\<close>. Numbers of magnitude \<open>2 ^ 1024\<close> or more, the infinities
  and NaN are outside the model.

  \<open>bitLength n\<close> is the number of binary digits of \<open>n\<close>.
\<close>

function bitLength :: "nat \<Rightarrow> nat" where
  "bitLength n = (if n = 0 then 0 else Suc (bitLength (n div 2)))"
  by pat_completeness auto
termination
  by (relation "measure id") auto

declare bitLength.simps [simp del]

definition exponentOf :: "real \<Rightarrow> int" where
  "exponentOf x =
     (if 1 \<le> \<bar>x\<bar> then int (bitLength (nat \<lfloor>\<bar>x\<bar>\<rfloor>)) - 1
      else - int (bitLength (nat (\<lceil>1 / \<bar>x\<bar>\<rceil> - 1))))"

definition pow2 :: "int \<Rightarrow> real" where
  "pow2 k = (if 0 \<le> k then 2 ^ nat k else 1 / 2 ^ nat (- k))"

definition roundHalfEven :: "real \<Rightarrow> int" where
  "roundHalfEven q =
     (if q - of_int \<lfloor>q\<rfloor> < 1 / 2 then \<lfloor>q\<rfloor>
      else if 1 / 2 < q - of_int \<lfloor>q\<rfloor> then \<lfloor>q\<rfloor> + 1
      else if even \<lfloor>q\<rfloor> then \<lfloor>q\<rfloor> else \<lfloor>q\<rfloor> + 1)"

definition toDouble :: "real \<Rightarrow> real" where
  "toDouble x =
     (if x = 0 then 0
      else of_int (roundHalfEven (x / pow2 (max (exponentOf x) (- 1022) - 52)))
             * pow2 (max (exponentOf x) (- 1022) - 52))"

subsection \<open>The types of \<^verbatim>\<open>annotations.ts\<close>\<close>

text \<open>
  At run time the type of an instruction is whatever string the request carries;
  \<open>OTHER\<close> stands for a string that is none of the three members of the enum.
\<close>

datatype AnnotationType = HIGHLIGHT | UNDERLINE | COMMENT | OTHER jsstring

record AnnotationColor =
  col_r :: real
  col_g :: real
  col_b :: real
  col_a :: "real option"

record TextPosition =
  tp_pageNumber :: int
  tp_text :: jsstring
  tp_x :: "int option"
  tp_y :: "int option"
  tp_width :: "int option"
  tp_height :: "int option"

record AnnotationInstruction =
  ai_type :: AnnotationType
  ai_text :: jsstring
  ai_pageNumber :: "int option"
  ai_color :: "AnnotationColor option"
  ai_comment :: "jsstring option"
  ai_caseSensitive :: "bool option"

text \<open>\<^verbatim>\<open>AnnotationOptions\<close>, every field optional, and \<^verbatim>\<open>Required<AnnotationOptions>\<close>.\<close>

record AnnotationOptions =
  ao_matchTolerance :: "real option"
  ao_firstMatchOnly :: "bool option"
  ao_skipNotFound :: "bool option"
  ao_logNotFound :: "bool option"

record RequiredOptions =
  matchTolerance :: real
  firstMatchOnly :: bool
  skipNotFound :: bool
  logNotFound :: bool

record AnnotationRequest =
  instructions :: "AnnotationInstruction list"
  options :: "AnnotationOptions option"

text \<open>
  The error of a result, kept symbolic:
  \<open>TextNotFound\<close> is the message \<^verbatim>\<open>'Text not found in document'\<close>,
  \<open>UnknownAnnotationType t\<close> is \<^verbatim>\<open>`Unknown annotation type: ${t}`\<close>,
  \<open>PageIndexOutOfRange i\<close> is the message of the error that pdf-lib's
  \<^verbatim>\<open>getPage(i)\<close> throws, \<open>ColorUndefined\<close> the message of the TypeError of
  reading a component of a colour that is \<^verbatim>\<open>undefined\<close>, \<open>ColorOutOfRange\<close> and
  \<open>OpacityOutOfRange\<close> the messages of the errors that pdf-lib throws for a colour
  component or an opacity outside \<open>[0, 1]\<close>, and \<open>CannotEncode s\<close> the message of the
  error that it throws for a text \<open>s\<close> that the font cannot encode;
  \<^verbatim>\<open>applyAnnotation\<close> catches them all.
\<close>

datatype error =
    TextNotFound
  | UnknownAnnotationType jsstring
  | PageIndexOutOfRange int
  | ColorUndefined
  | ColorOutOfRange
  | OpacityOutOfRange
  | CannotEncode jsstring

record AnnotationResult =
  ar_instruction :: AnnotationInstruction
  ar_success :: bool
  ar_matchedText :: "jsstring option"
  ar_position :: "TextPosition option"
  ar_error :: "error option"

text \<open>
  Of a page and of the extracted text the annotator reads the number, the text and the
  list of pages; the optional \<^verbatim>\<open>lines\<close> and \<^verbatim>\<open>metadata\<close> are left out.
\<close>

record PageText =
  pt_pageNumber :: int
  pt_text :: jsstring

record ExtractedText =
  pages :: "PageText list"
  totalPages :: int

definition DEFAULT_COLORS :: "AnnotationType \<Rightarrow> AnnotationColor option" where
  "DEFAULT_COLORS t =
     (case t of
        HIGHLIGHT \<Rightarrow> Some \<lparr>col_r = 1, col_g = 1, col_b = 0, col_a = Some (3 / 10)\<rparr>
      | UNDERLINE \<Rightarrow> Some \<lparr>col_r = 1, col_g = 0, col_b = 0, col_a = Some 1\<rparr>
      | COMMENT \<Rightarrow> Some \<lparr>col_r = 0, col_g = 1 / 2, col_b = 1, col_a = Some (8 / 10)\<rparr>
      | OTHER _ \<Rightarrow> None)"

definition DEFAULT_ANNOTATION_OPTIONS :: RequiredOptions where
  "DEFAULT_ANNOTATION_OPTIONS =
     \<lparr>matchTolerance = 1 / 10, firstMatchOnly = True, skipNotFound = True, logNotFound = True\<rparr>"

text \<open>
  \<^verbatim>\<open>{ ...DEFAULT_ANNOTATION_OPTIONS, ...request.options }\<close>: a field the request gives
  replaces the default. The fields of the request are absent or hold a value; a field
  that is present and holds \<^verbatim>\<open>undefined\<close> is outside the model.
\<close>

definition mergeOptions :: "AnnotationOptions option \<Rightarrow> RequiredOptions" where
  "mergeOptions ro =
     (case ro of
        None \<Rightarrow> DEFAULT_ANNOTATION_OPTIONS
      | Some r \<Rightarrow>
          \<lparr>matchTolerance =
             (case ao_matchTolerance r of None \<Rightarrow> matchTolerance DEFAULT_ANNOTATION_OPTIONS | Some v \<Rightarrow> v),
           firstMatchOnly =
             (case ao_firstMatchOnly r of None \<Rightarrow> firstMatchOnly DEFAULT_ANNOTATION_OPTIONS | Some v \<Rightarrow> v),
           skipNotFound =
             (case ao_skipNotFound r of None \<Rightarrow> skipNotFound DEFAULT_ANNOTATION_OPTIONS | Some v \<Rightarrow> v),
           logNotFound =
             (case ao_logNotFound r of None \<Rightarrow> logNotFound DEFAULT_ANNOTATION_OPTIONS | Some v \<Rightarrow> v)\<rparr>)"

subsection \<open>\<^verbatim>\<open>normalizeText\<close>\<close>

text \<open>
  The four replacements and the trim, in the order of the source. The two character
  classes for quotes hold the ASCII apostrophe (twice) and the ASCII double quote (twice),
  as the source file has them; the class for dashes holds U+2013 and U+2014.
\<close>

definition normalizeText :: "jsstring \<Rightarrow> jsstring" where
  "normalizeText text =
     trim (replaceChars [0x2013, 0x2014] 0x2D
            (replaceChars [0x22, 0x22] 0x22
              (replaceChars [0x27, 0x27] 0x27
                (collapseWhitespace text))))"

text \<open>
  What the three replacements of \<open>normalizeText\<close> do to one character: the classes of
  the two replacements for quotes hold the replacement itself, so only the dashes change.
\<close>

definition norm_char :: "jschar \<Rightarrow> jschar" where
  "norm_char c = (if c = 0x2013 \<or> c = 0x2014 then 0x2D else c)"

subsection \<open>\<^verbatim>\<open>createTextPosition\<close>\<close>

definition createTextPosition :: "int \<Rightarrow> jsstring \<Rightarrow> int \<Rightarrow> jsstring \<Rightarrow> TextPosition" where
  "createTextPosition pageNumber originalText charIndex matchedText =
     \<lparr>tp_pageNumber = pageNumber,
      tp_text = originalText,
      tp_x = Some 50,
      tp_y = Some (700 - (charIndex div 100) * 20),
      tp_width = Some (int (length matchedText) * 6),
      tp_height = Some 12\<rparr>"

subsection \<open>\<^verbatim>\<open>levenshteinDistance\<close>\<close>

text \<open>
  The source fills a matrix whose row \<open>i\<close> belongs to the first \<open>i\<close> characters of
  \<open>str2\<close> and whose column \<open>j\<close> belongs to the first \<open>j\<close> characters of \<open>str1\<close>.

  \<open>levenshteinRow c ds prev left\<close> is the inner loop on \<open>j\<close> for one row: \<open>c\<close> is
  \<^verbatim>\<open>str2.charAt(i - 1)\<close>, \<open>ds\<close> the characters of \<open>str1\<close> from \<open>j - 1\<close> on, \<open>prev\<close>
  the row above from column \<open>j - 1\<close> on, and \<open>left\<close> the cell \<^verbatim>\<open>matrix[i][j - 1]\<close>.
  It returns the cells \<^verbatim>\<open>matrix[i][j]\<close>, \<^verbatim>\<open>matrix[i][j + 1]\<close>, ...
\<close>

fun levenshteinRow :: "jschar \<Rightarrow> jsstring \<Rightarrow> nat list \<Rightarrow> nat \<Rightarrow> nat list" where
  "levenshteinRow c (d # ds) (diag # up # rest) left =
     (let cell = (if c = d then diag else min (diag + 1) (min (left + 1) (up + 1)))
      in cell # levenshteinRow c ds (up # rest) cell)"
| "levenshteinRow c _ _ left = []"

text \<open>
  The outer loop on \<open>i\<close>: \<open>prev\<close> is row \<open>i - 1\<close>, the list holds the characters of
  \<open>str2\<close> from \<open>i - 1\<close> on. Row \<open>i\<close> starts with \<^verbatim>\<open>matrix[i] = [i]\<close>.
\<close>

fun levenshteinRows :: "jsstring \<Rightarrow> nat list \<Rightarrow> nat \<Rightarrow> jsstring \<Rightarrow> nat list" where
  "levenshteinRows str1 prev i [] = prev"
| "levenshteinRows str1 prev i (c # cs) =
     levenshteinRows str1 (i # levenshteinRow c str1 prev i) (Suc i) cs"

text \<open>Row \<open>0\<close> is \<^verbatim>\<open>matrix[0][j] = j\<close>; the result is the last cell of the last row.\<close>

definition levenshteinDistance :: "jsstring \<Rightarrow> jsstring \<Rightarrow> nat" where
  "levenshteinDistance str1 str2 =
     last (levenshteinRows str1 [0..<Suc (length str1)] 1 str2)"

text \<open>
  The edit distance as the specification words it: the standard dynamic-programming
  recurrence in which an insertion, a deletion and a substitution each cost 1.
  \<open>editDistance a b i j\<close> is the distance between the first \<open>i\<close> characters of \<open>a\<close> and
  the first \<open>j\<close> characters of \<open>b\<close>.
\<close>

fun editDistance :: "'a list \<Rightarrow> 'a list \<Rightarrow> nat \<Rightarrow> nat \<Rightarrow> nat" where
  "editDistance a b 0 j = j"
| "editDistance a b (Suc i) 0 = Suc i"
| "editDistance a b (Suc i) (Suc j) =
     min (editDistance a b i j + (if a ! i = b ! j then 0 else 1))
         (min (editDistance a b i (Suc j) + 1) (editDistance a b (Suc i) j + 1))"

definition levenshtein :: "'a list \<Rightarrow> 'a list \<Rightarrow> nat" where
  "levenshtein a b = editDistance a b (length a) (length b)"

subsection \<open>\<^verbatim>\<open>fuzzySearchWithNormalization\<close>\<close>

record FuzzyMatch =
  fm_index :: int
  fm_distance :: enat
  fm_matchedText :: jsstring

text \<open>The window \<^verbatim>\<open>text.substring(i, i + pattern.length)\<close>.\<close>

definition window :: "jsstring \<Rightarrow> jsstring \<Rightarrow> int \<Rightarrow> jsstring" where
  "window text pattern i = substring text i (i + int (length pattern))"

text \<open>The update of \<^verbatim>\<open>bestMatch\<close> at a window within the tolerance.\<close>

definition betterMatch :: "jsstring \<Rightarrow> jsstring \<Rightarrow> int \<Rightarrow> FuzzyMatch \<Rightarrow> FuzzyMatch" where
  "betterMatch text pattern i bestMatch =
     (if enat (levenshteinDistance (window text pattern i) pattern) < fm_distance bestMatch
      then \<lparr>fm_index = i,
            fm_distance = enat (levenshteinDistance (window text pattern i) pattern),
            fm_matchedText = window text pattern i\<rparr>
      else bestMatch)"

text \<open>The loop on \<open>i\<close>, with the bound of its condition as \<open>bound\<close>.\<close>

function fuzzyLoop ::
  "jsstring \<Rightarrow> jsstring \<Rightarrow> int \<Rightarrow> int \<Rightarrow> int \<Rightarrow> FuzzyMatch \<Rightarrow> FuzzyMatch" where
  "fuzzyLoop text pattern maxDistance bound i bestMatch =
     (if i \<le> bound then
        (if int (levenshteinDistance (window text pattern i) pattern) \<le> maxDistance then
           (if levenshteinDistance (window text pattern i) pattern \<le> 2
            then betterMatch text pattern i bestMatch
            else fuzzyLoop text pattern maxDistance bound (i + 1)
                   (betterMatch text pattern i bestMatch))
         else fuzzyLoop text pattern maxDistance bound (i + 1) bestMatch)
      else bestMatch)"
  by pat_completeness auto
termination
  by (relation "measure (\<lambda>(text, pattern, maxDistance, bound, i, bestMatch). nat (bound + 1 - i))")
     auto

declare fuzzyLoop.simps [simp del]

definition scanBound :: "jsstring \<Rightarrow> jsstring \<Rightarrow> int" where
  "scanBound text pattern =
     min (int (length text) - int (length pattern))
         (min (int (length text)) (int (length pattern) * 100))"

text \<open>
  \<^verbatim>\<open>Math.floor(pattern.length * tolerance)\<close>: the length is an integer, the tolerance a
  double, and their product is rounded to a double before the floor is taken.
\<close>

definition maxDistanceOf :: "jsstring \<Rightarrow> real \<Rightarrow> int" where
  "maxDistanceOf pattern tolerance = \<lfloor>toDouble (real (length pattern) * toDouble tolerance)\<rfloor>"

definition fuzzySearchWithNormalization :: "jsstring \<Rightarrow> jsstring \<Rightarrow> real \<Rightarrow> FuzzyMatch" where
  "fuzzySearchWithNormalization text pattern tolerance =
     fuzzyLoop text pattern (maxDistanceOf pattern tolerance) (scanBound text pattern) 0
       \<lparr>fm_index = - 1, fm_distance = \<infinity>, fm_matchedText = []\<rparr>"

subsection \<open>\<^verbatim>\<open>findTextPosition\<close>\<close>

text \<open>
  \<open>canEncode rt s\<close> says whether the embedded font can encode the text \<open>s\<close>: pdf-lib's
  \<^verbatim>\<open>font.widthOfTextAtSize\<close> and \<^verbatim>\<open>page.drawText\<close> throw for a text that it
  cannot. \<open>widthOfTextAtSize\<close> is read only for a text that it can.
\<close>

record runtime =
  toLowerCase :: "jsstring \<Rightarrow> jsstring"
  canEncode :: "jsstring \<Rightarrow> bool"
  widthOfTextAtSize :: "jsstring \<Rightarrow> real \<Rightarrow> real"

text \<open>
  The source returns \<^verbatim>\<open>createTextPosition(page.pageNumber, instruction.text, index, matched)\<close>
  at the strategy that succeeds. A \<open>Match\<close> holds the strategy and the arguments of that
  call that the strategy decides; \<open>findTextPosition\<close> below makes the call.
\<close>

datatype Strategy = Exact | Partial50 | Partial30 | Fuzzy | RawFallback

record Match =
  m_strategy :: Strategy
  m_pageNumber :: int
  m_index :: int
  m_matchedText :: jsstring

text \<open>A truthy optional boolean.\<close>

definition truthy :: "bool option \<Rightarrow> bool" where
  "truthy b = (b = Some True)"

definition foldCase :: "runtime \<Rightarrow> AnnotationInstruction \<Rightarrow> jsstring \<Rightarrow> jsstring" where
  "foldCase rt instruction s =
     (if truthy (ai_caseSensitive instruction) then s else toLowerCase rt s)"

text \<open>
  The body of the loop over the pages: the five strategies in their order. The code
  compares the double that it holds for the tolerance with \<open>0\<close>.
\<close>

definition searchPage ::
  "runtime \<Rightarrow> AnnotationInstruction \<Rightarrow> RequiredOptions \<Rightarrow> jsstring \<Rightarrow> jsstring \<Rightarrow> PageText
     \<Rightarrow> Match option" where
  "searchPage rt instruction opts searchText normalizedSearchText page =
     (let pageText = foldCase rt instruction (pt_text page);
          normalizedPageText = normalizeText pageText;
          partialSearch50 = substring normalizedSearchText 0 50;
          partialSearch30 = substring normalizedSearchText 0 30;
          fuzzyResult = fuzzySearchWithNormalization normalizedPageText normalizedSearchText
                          (matchTolerance opts)
      in if indexOf normalizedPageText normalizedSearchText \<noteq> - 1 then
           Some \<lparr>m_strategy = Exact, m_pageNumber = pt_pageNumber page,
                 m_index = indexOf normalizedPageText normalizedSearchText,
                 m_matchedText = normalizedSearchText\<rparr>
         else if length normalizedSearchText > 50
                 \<and> indexOf normalizedPageText partialSearch50 \<noteq> - 1 then
           Some \<lparr>m_strategy = Partial50, m_pageNumber = pt_pageNumber page,
                 m_index = indexOf normalizedPageText partialSearch50,
                 m_matchedText = partialSearch50\<rparr>
         else if length normalizedSearchText > 30
                 \<and> indexOf normalizedPageText partialSearch30 \<noteq> - 1 then
           Some \<lparr>m_strategy = Partial30, m_pageNumber = pt_pageNumber page,
                 m_index = indexOf normalizedPageText partialSearch30,
                 m_matchedText = partialSearch30\<rparr>
         else if toDouble (matchTolerance opts) > 0 \<and> fm_index fuzzyResult \<noteq> - 1 then
           Some \<lparr>m_strategy = Fuzzy, m_pageNumber = pt_pageNumber page,
                 m_index = fm_index fuzzyResult,
                 m_matchedText = fm_matchedText fuzzyResult\<rparr>
         else if indexOf pageText searchText \<noteq> - 1 then
           Some \<lparr>m_strategy = RawFallback, m_pageNumber = pt_pageNumber page,
                 m_index = indexOf pageText searchText,
                 m_matchedText = searchText\<rparr>
         else None)"

text \<open>
  The loop over \<^verbatim>\<open>pagesToSearch\<close>: a strategy that succeeds returns; after a page on
  which none did, \<^verbatim>\<open>if (options.firstMatchOnly) break\<close> leaves the loop.
\<close>

fun searchPages ::
  "runtime \<Rightarrow> AnnotationInstruction \<Rightarrow> RequiredOptions \<Rightarrow> jsstring \<Rightarrow> jsstring \<Rightarrow> PageText list
     \<Rightarrow> Match option" where
  "searchPages rt instruction opts searchText normalizedSearchText [] = None"
| "searchPages rt instruction opts searchText normalizedSearchText (page # rest) =
     (case searchPage rt instruction opts searchText normalizedSearchText page of
        Some m \<Rightarrow> Some m
      | None \<Rightarrow>
          if firstMatchOnly opts then None
          else searchPages rt instruction opts searchText normalizedSearchText rest)"

text \<open>
  \<^verbatim>\<open>instruction.pageNumber ? pages.filter(...) : pages\<close>: a page number that is absent
  or \<open>0\<close> is falsy.
\<close>

definition pagesToSearch :: "ExtractedText \<Rightarrow> AnnotationInstruction \<Rightarrow> PageText list" where
  "pagesToSearch extractedText instruction =
     (case ai_pageNumber instruction of
        None \<Rightarrow> pages extractedText
      | Some n \<Rightarrow>
          if n = 0 then pages extractedText
          else filter (\<lambda>p. pt_pageNumber p = n) (pages extractedText))"

definition findMatch ::
  "runtime \<Rightarrow> ExtractedText \<Rightarrow> AnnotationInstruction \<Rightarrow> RequiredOptions \<Rightarrow> Match option" where
  "findMatch rt extractedText instruction opts =
     (let searchText = foldCase rt instruction (ai_text instruction);
          normalizedSearchText = normalizeText searchText
      in searchPages rt instruction opts searchText normalizedSearchText
           (pagesToSearch extractedText instruction))"

definition findTextPosition ::
  "runtime \<Rightarrow> ExtractedText \<Rightarrow> AnnotationInstruction \<Rightarrow> RequiredOptions \<Rightarrow> TextPosition option" where
  "findTextPosition rt extractedText instruction opts =
     map_option
       (\<lambda>m. createTextPosition (m_pageNumber m) (ai_text instruction) (m_index m) (m_matchedText m))
       (findMatch rt extractedText instruction opts)"

subsection \<open>The drawing functions\<close>

text \<open>
  Of pdf-lib the model keeps what the annotator uses: a document is a list of pages, a
  page has a size and the list of what was drawn on it, in order. The calls that can
  throw return an error in place of their result:
  \<^item> \<^verbatim>\<open>getPage(i)\<close> when \<open>i\<close> is not an index of the document;
  \<^item> \<^verbatim>\<open>rgb(r, g, b)\<close> when a component is outside \<open>[0, 1]\<close>;
  \<^item> \<^verbatim>\<open>drawRectangle\<close> and \<^verbatim>\<open>drawLine\<close> when the opacity is outside \<open>[0, 1]\<close>;
  \<^item> \<^verbatim>\<open>widthOfTextAtSize\<close> and \<^verbatim>\<open>drawText\<close> when the font cannot encode the text.

  What was drawn on a page before a call threw stays on the page.
\<close>

type_synonym RGB = "real \<times> real \<times> real"

datatype Operator =
    Rectangle (r_x: real) (r_y: real) (r_width: real) (r_height: real)
      (r_color: RGB) (r_opacity: real) (r_border: "(RGB \<times> real) option")
  | Line (l_start: "real \<times> real") (l_end: "real \<times> real")
      (l_thickness: real) (l_color: RGB) (l_opacity: real)
  | Text (t_text: jsstring) (t_x: real) (t_y: real) (t_size: real) (t_color: RGB)

record PDFPage =
  pg_width :: real
  pg_height :: real
  pg_content :: "Operator list"

type_synonym PDFDocument = "PDFPage list"

definition getPage :: "PDFDocument \<Rightarrow> int \<Rightarrow> error + PDFPage" where
  "getPage pdfDoc i =
     (if 0 \<le> i \<and> i < int (length pdfDoc) then Inr (pdfDoc ! nat i)
      else Inl (PageIndexOutOfRange i))"

definition draw :: "PDFPage \<Rightarrow> Operator \<Rightarrow> PDFPage" where
  "draw page op = page\<lparr>pg_content := pg_content page @ [op]\<rparr>"

definition rgb :: "real \<Rightarrow> real \<Rightarrow> real \<Rightarrow> error + RGB" where
  "rgb red green blue =
     (if 0 \<le> red \<and> red \<le> 1 \<and> 0 \<le> green \<and> green \<le> 1 \<and> 0 \<le> blue \<and> blue \<le> 1
      then Inr (red, green, blue)
      else Inl ColorOutOfRange)"

text \<open>\<^verbatim>\<open>rgb(0, 0, 0)\<close>, which never throws.\<close>

definition black :: RGB where
  "black = (0, 0, 0)"

definition drawRectangle ::
  "PDFPage \<Rightarrow> real \<Rightarrow> real \<Rightarrow> real \<Rightarrow> real \<Rightarrow> RGB \<Rightarrow> real \<Rightarrow> (RGB \<times> real) option
     \<Rightarrow> error + PDFPage" where
  "drawRectangle page x y width height color opacity border =
     (if 0 \<le> opacity \<and> opacity \<le> 1
      then Inr (draw page (Rectangle x y width height color opacity border))
      else Inl OpacityOutOfRange)"

definition drawLine ::
  "PDFPage \<Rightarrow> real \<times> real \<Rightarrow> real \<times> real \<Rightarrow> real \<Rightarrow> RGB \<Rightarrow> real \<Rightarrow> error + PDFPage" where
  "drawLine page start end thickness color opacity =
     (if 0 \<le> opacity \<and> opacity \<le> 1
      then Inr (draw page (Line start end thickness color opacity))
      else Inl OpacityOutOfRange)"

definition drawText ::
  "runtime \<Rightarrow> PDFPage \<Rightarrow> jsstring \<Rightarrow> real \<Rightarrow> real \<Rightarrow> real \<Rightarrow> RGB \<Rightarrow> error + PDFPage" where
  "drawText rt page text x y fontSize color =
     (if canEncode rt text then Inr (draw page (Text text x y fontSize color))
      else Inl (CannotEncode text))"

text \<open>\<^verbatim>\<open>v || d\<close> for an optional number: absent and \<open>0\<close> are falsy.\<close>

definition orElseInt :: "int option \<Rightarrow> real \<Rightarrow> real" where
  "orElseInt v d = (case v of None \<Rightarrow> d | Some n \<Rightarrow> if n = 0 then d else real_of_int n)"

definition orElseReal :: "real option \<Rightarrow> real \<Rightarrow> real" where
  "orElseReal v d = (case v of None \<Rightarrow> d | Some x \<Rightarrow> if x = 0 then d else x)"

text \<open>
  A drawing function returns the error that it threw, if any, and the page as it left
  it. \<open>thrownOr page r\<close> is this pair for a single call \<open>r\<close> on \<open>page\<close>.
\<close>

definition thrownOr :: "PDFPage \<Rightarrow> error + PDFPage \<Rightarrow> error option \<times> PDFPage" where
  "thrownOr page r = (case r of Inl e \<Rightarrow> (Some e, page) | Inr page' \<Rightarrow> (None, page'))"

definition drawHighlight ::
  "PDFPage \<Rightarrow> TextPosition \<Rightarrow> AnnotationColor \<Rightarrow> real \<Rightarrow> real \<Rightarrow> error option \<times> PDFPage" where
  "drawHighlight page position color pageWidth pageHeight =
     (let x = orElseInt (tp_x position) 50;
          y = orElseInt (tp_y position) (pageHeight - 100);
          width = orElseInt (tp_width position) 100;
          height = orElseInt (tp_height position) 12
      in case rgb (col_r color) (col_g color) (col_b color) of
           Inl e \<Rightarrow> (Some e, page)
         | Inr c \<Rightarrow>
             thrownOr page
               (drawRectangle page (x - 2) (y - 2) (width + 4) (height + 4) c
                  (orElseReal (col_a color) (3 / 10)) None))"

definition drawUnderline ::
  "PDFPage \<Rightarrow> TextPosition \<Rightarrow> AnnotationColor \<Rightarrow> real \<Rightarrow> real \<Rightarrow> error option \<times> PDFPage" where
  "drawUnderline page position color pageWidth pageHeight =
     (let x = orElseInt (tp_x position) 50;
          y = orElseInt (tp_y position) (pageHeight - 100);
          width = orElseInt (tp_width position) 100
      in case rgb (col_r color) (col_g color) (col_b color) of
           Inl e \<Rightarrow> (Some e, page)
         | Inr c \<Rightarrow>
             thrownOr page
               (drawLine page (x, y - 2) (x + width, y - 2) (3 / 2) c
                  (orElseReal (col_a color) 1)))"

text \<open>
  The loop that wraps the words of a comment: \<open>currentLine\<close> and \<open>lines\<close> are the two
  variables of the source, the empty string is falsy. The loop ends at the first
  \<open>testLine\<close> that the font cannot encode.
\<close>

fun wrapWords ::
  "runtime \<Rightarrow> jsstring list \<Rightarrow> jsstring \<Rightarrow> jsstring list \<Rightarrow> error + jsstring list" where
  "wrapWords rt [] currentLine lines =
     Inr (if currentLine \<noteq> [] then lines @ [currentLine] else lines)"
| "wrapWords rt (word # ws) currentLine lines =
     (let testLine = (if currentLine \<noteq> [] then currentLine @ [0x20] @ word else word)
      in if \<not> canEncode rt testLine then Inl (CannotEncode testLine)
         else if widthOfTextAtSize rt testLine 8 < 140 - 10
         then wrapWords rt ws testLine lines
         else wrapWords rt ws word
                (if currentLine \<noteq> [] then lines @ [currentLine] else lines))"

text \<open>
  The loop that draws the lines of a comment, from line \<open>i\<close> on: \<open>ls\<close> holds
  \<^verbatim>\<open>lines[i]\<close>, \<^verbatim>\<open>lines[i + 1]\<close>, ... up to \<^verbatim>\<open>maxLines\<close>.
\<close>

fun drawLines ::
  "runtime \<Rightarrow> PDFPage \<Rightarrow> real \<Rightarrow> real \<Rightarrow> real \<Rightarrow> nat \<Rightarrow> jsstring list
     \<Rightarrow> error option \<times> PDFPage" where
  "drawLines rt page commentX commentY commentHeight i [] = (None, page)"
| "drawLines rt page commentX commentY commentHeight i (l # ls) =
     (case drawText rt page l (commentX + 5) (commentY - commentHeight + 45 - real i * 10)
             8 black of
        Inl e \<Rightarrow> (Some e, page)
      | Inr page' \<Rightarrow> drawLines rt page' commentX commentY commentHeight (Suc i) ls)"

definition drawComment ::
  "runtime \<Rightarrow> PDFPage \<Rightarrow> TextPosition \<Rightarrow> jsstring \<Rightarrow> AnnotationColor \<Rightarrow> real \<Rightarrow> real
     \<Rightarrow> error option \<times> PDFPage" where
  "drawComment rt page position comment color pageWidth pageHeight =
     (let x = orElseInt (tp_x position) 50;
          y = orElseInt (tp_y position) (pageHeight - 100);
          commentX = pageWidth - 150;
          commentY = y;
          commentWidth = 140;
          commentHeight = 60
      in case rgb (col_r color) (col_g color) (col_b color) of
           Inl e \<Rightarrow> (Some e, page)
         | Inr c \<Rightarrow>
             (case drawRectangle page commentX (commentY - commentHeight) commentWidth
                     commentHeight c (orElseReal (col_a color) (8 / 10)) (Some (black, 1)) of
                Inl e \<Rightarrow> (Some e, page)
              | Inr withBox \<Rightarrow>
                  (case drawLine withBox (x + orElseInt (tp_width position) 100, y + 6)
                          (commentX, commentY - commentHeight / 2) (1 / 2) black (1 / 2) of
                     Inl e \<Rightarrow> (Some e, withBox)
                   | Inr withConnector \<Rightarrow>
                       (case wrapWords rt (splitSpace comment) [] [] of
                          Inl e \<Rightarrow> (Some e, withConnector)
                        | Inr lines \<Rightarrow>
                            drawLines rt withConnector commentX commentY commentHeight 0
                              (take (min (length lines) 5) lines)))))"

subsection \<open>\<^verbatim>\<open>applyAnnotation\<close>\<close>

definition failure :: "AnnotationInstruction \<Rightarrow> error \<Rightarrow> AnnotationResult" where
  "failure instruction e =
     \<lparr>ar_instruction = instruction, ar_success = False, ar_matchedText = None,
      ar_position = None, ar_error = Some e\<rparr>"

definition applied :: "AnnotationInstruction \<Rightarrow> TextPosition \<Rightarrow> AnnotationResult" where
  "applied instruction textPosition =
     \<lparr>ar_instruction = instruction, ar_success = True,
      ar_matchedText = Some (tp_text textPosition),
      ar_position = Some textPosition, ar_error = None\<rparr>"

text \<open>\<^verbatim>\<open>instruction.color || DEFAULT_COLORS[instruction.type]\<close>.\<close>

definition colorOf :: "AnnotationInstruction \<Rightarrow> AnnotationColor option" where
  "colorOf instruction =
     (case ai_color instruction of
        Some c \<Rightarrow> Some c
      | None \<Rightarrow> DEFAULT_COLORS (ai_type instruction))"

text \<open>\<^verbatim>\<open>instruction.comment || 'Comment'\<close>: an absent and an empty comment are falsy.\<close>

definition commentOf :: "AnnotationInstruction \<Rightarrow> jsstring" where
  "commentOf instruction =
     (case ai_comment instruction of
        None \<Rightarrow> js ''Comment''
      | Some c \<Rightarrow> if c = [] then js ''Comment'' else c)"

text \<open>
  What \<^verbatim>\<open>applyAnnotation\<close> returns after a drawing function: the success when nothing
  was thrown, the failure with the error caught otherwise. The page is a page of the
  document, so what was drawn on it is written back at its index in both cases.
\<close>

definition afterDrawing ::
  "PDFDocument \<Rightarrow> nat \<Rightarrow> AnnotationInstruction \<Rightarrow> TextPosition \<Rightarrow> error option \<times> PDFPage
     \<Rightarrow> AnnotationResult \<times> PDFDocument" where
  "afterDrawing pdfDoc k instruction textPosition r =
     (case r of
        (None, page') \<Rightarrow> (applied instruction textPosition, pdfDoc[k := page'])
      | (Some e, page') \<Rightarrow> (failure instruction e, pdfDoc[k := page']))"

text \<open>
  The result and the document after the call. An error thrown inside the \<^verbatim>\<open>try\<close> is
  the error of a failed result. The \<^verbatim>\<open>default\<close> of the switch returns before the colour
  is read; for the three types of the enum \<^verbatim>\<open>DEFAULT_COLORS\<close> has a colour, so the last
  branch is never taken.
\<close>

definition applyAnnotation ::
  "runtime \<Rightarrow> PDFDocument \<Rightarrow> ExtractedText \<Rightarrow> AnnotationInstruction \<Rightarrow> RequiredOptions
     \<Rightarrow> AnnotationResult \<times> PDFDocument" where
  "applyAnnotation rt pdfDoc extractedText instruction opts =
     (case findTextPosition rt extractedText instruction opts of
        None \<Rightarrow> (failure instruction TextNotFound, pdfDoc)
      | Some textPosition \<Rightarrow>
          (case getPage pdfDoc (tp_pageNumber textPosition - 1) of
             Inl e \<Rightarrow> (failure instruction e, pdfDoc)
           | Inr page \<Rightarrow>
               (let k = nat (tp_pageNumber textPosition - 1);
                    width = pg_width page;
                    height = pg_height page
                in case (ai_type instruction, colorOf instruction) of
                     (HIGHLIGHT, Some color) \<Rightarrow>
                       afterDrawing pdfDoc k instruction textPosition
                         (drawHighlight page textPosition color width height)
                   | (UNDERLINE, Some color) \<Rightarrow>
                       afterDrawing pdfDoc k instruction textPosition
                         (drawUnderline page textPosition color width height)
                   | (COMMENT, Some color) \<Rightarrow>
                       afterDrawing pdfDoc k instruction textPosition
                         (drawComment rt page textPosition (commentOf instruction)
                            color width height)
                   | (OTHER t, _) \<Rightarrow> (failure instruction (UnknownAnnotationType t), pdfDoc)
                   | (_, None) \<Rightarrow> (failure instruction ColorUndefined, pdfDoc))))"

subsection \<open>\<^verbatim>\<open>annotatePDF\<close>\<close>

text \<open>
  A warning \<^verbatim>\<open>`Failed to apply ${type} annotation for text "${text}": ${error}`\<close>, kept
  symbolic.
\<close>

datatype warning = FailedToApply AnnotationType jsstring "error option"

record AnnotationResponse =
  success :: bool
  results :: "AnnotationResult list"
  warnings :: "warning list option"
  pdfBuffer :: "PDFDocument option"

text \<open>
  The loop over the instructions: the results and the warnings pushed, and the document
  after the last instruction.
\<close>

fun processInstructions ::
  "runtime \<Rightarrow> PDFDocument \<Rightarrow> ExtractedText \<Rightarrow> RequiredOptions \<Rightarrow> AnnotationInstruction list
     \<Rightarrow> AnnotationResult list \<times> warning list \<times> PDFDocument" where
  "processInstructions rt pdfDoc extractedText opts [] = ([], [], pdfDoc)"
| "processInstructions rt pdfDoc extractedText opts (instruction # rest) =
     (case applyAnnotation rt pdfDoc extractedText instruction opts of
        (result, pdfDoc') \<Rightarrow>
          (case processInstructions rt pdfDoc' extractedText opts rest of
             (rs, ws, pdfDoc'') \<Rightarrow>
               (result # rs,
                (if \<not> ar_success result \<and> logNotFound opts \<and> \<not> skipNotFound opts
                 then [FailedToApply (ai_type instruction) (ai_text instruction)
                         (ar_error result)]
                 else []) @ ws,
                pdfDoc'')))"

text \<open>
  \<open>loaded\<close> and \<open>extracted\<close> are the outcomes of \<^verbatim>\<open>PDFDocument.load(pdfBuffer)\<close> and of
  \<^verbatim>\<open>extractTextFromPDF(pdfBuffer)\<close>, \<open>Inl\<close> with the message of the error thrown. The
  function rethrows such an error as \<^verbatim>\<open>`Failed to annotate PDF: ${message}`\<close>. The saved
  buffer is the document after the last instruction.
\<close>

definition annotatePDF ::
  "runtime \<Rightarrow> jsstring + PDFDocument \<Rightarrow> jsstring + ExtractedText \<Rightarrow> AnnotationRequest
     \<Rightarrow> jsstring + AnnotationResponse" where
  "annotatePDF rt loaded extracted request =
     (let opts = mergeOptions (options request)
      in case loaded of
           Inl message \<Rightarrow> Inl (js ''Failed to annotate PDF: '' @ message)
         | Inr pdfDoc \<Rightarrow>
             (case extracted of
                Inl message \<Rightarrow> Inl (js ''Failed to annotate PDF: '' @ message)
              | Inr extractedText \<Rightarrow>
                  (case processInstructions rt pdfDoc extractedText opts (instructions request) of
                     (rs, ws, annotatedPdf) \<Rightarrow>
                       (let successCount = length (filter ar_success rs)
                        in Inr \<lparr>success = successCount > 0,
                                results = rs,
                                warnings = (if length ws > 0 then Some ws else None),
                                pdfBuffer = Some annotatedPdf\<rparr>))))"

subsection \<open>A runtime for the closed examples\<close>

text \<open>
  The examples below need a value for the parameter \<open>runtime\<close>. \<open>asciiToLowerCase\<close>
  lowers the letters A to Z, as \<^verbatim>\<open>toLowerCase\<close> does on ASCII text, and the font of
  \<open>exampleRuntime\<close> encodes the printable ASCII characters and gives every character
  half of the font size as its width.
\<close>

definition asciiToLowerCase :: "jsstring \<Rightarrow> jsstring" where
  "asciiToLowerCase s = map (\<lambda>c. if 0x41 \<le> c \<and> c \<le> 0x5A then c + 0x20 else c) s"

definition exampleRuntime :: runtime where
  "exampleRuntime =
     \<lparr>toLowerCase = asciiToLowerCase,
      canEncode = list_all (\<lambda>c. 0x20 \<le> c \<and> c \<le> 0x7E),
      widthOfTextAtSize = (\<lambda>s size. real (length s) * size / 2)\<rparr>"

definition highlightOf :: "jsstring \<Rightarrow> int option \<Rightarrow> AnnotationInstruction" where
  "highlightOf t n =
     \<lparr>ai_type = HIGHLIGHT, ai_text = t, ai_pageNumber = n, ai_color = None,
      ai_comment = None, ai_caseSensitive = None\<rparr>"

definition fourPages :: ExtractedText where
  "fourPages =
     \<lparr>pages = [\<lparr>pt_pageNumber = 1, pt_text = js ''abc''\<rparr>,
               \<lparr>pt_pageNumber = 2, pt_text = js ''xyz''\<rparr>,
               \<lparr>pt_pageNumber = 3, pt_text = []\<rparr>,
               \<lparr>pt_pageNumber = 4, pt_text = js ''xyz''\<rparr>],
      totalPages = 4\<rparr>"

definition commentOn :: "jsstring \<Rightarrow> jsstring option \<Rightarrow> AnnotationInstruction" where
  "commentOn t c =
     \<lparr>ai_type = COMMENT, ai_text = t, ai_pageNumber = None, ai_color = None,
      ai_comment = c, ai_caseSensitive = None\<rparr>"

definition letterPage :: PDFPage where
  "letterPage = \<lparr>pg_width = 612, pg_height = 792, pg_content = []\<rparr>"

text \<open>The document after a list of instructions.\<close>

definition documentAfter ::
  "runtime \<Rightarrow> PDFDocument \<Rightarrow> ExtractedText \<Rightarrow> RequiredOptions \<Rightarrow> AnnotationInstruction list
     \<Rightarrow> PDFDocument" where
  "documentAfter rt pdfDoc extractedText opts is =
     snd (snd (processInstructions rt pdfDoc extractedText opts is))"

definition halfTolerance :: RequiredOptions where
  "halfTolerance = DEFAULT_ANNOTATION_OPTIONS\<lparr>matchTolerance := 1 / 2\<rparr>"

definition alphabetPage :: ExtractedText where
  "alphabetPage =
     \<lparr>pages = [\<lparr>pt_pageNumber = 1, pt_text = js ''abcdefghijklmnopqrstuvwxyz0123''\<rparr>],
      totalPages = 1\<rparr>"

text \<open>
  A runtime whose \<^verbatim>\<open>toLowerCase\<close> also lowers U+0130, the capital I with a dot above,
  to the two code units U+0069 U+0307, as JavaScript does, and a document of one page
  whose text starts with that letter.
\<close>

definition dottedToLowerCase :: "jsstring \<Rightarrow> jsstring" where
  "dottedToLowerCase s =
     concat (map (\<lambda>c. if c = 0x130 then [0x69, 0x307]
                       else if 0x41 \<le> c \<and> c \<le> 0x5A then [c + 0x20] else [c]) s)"

definition dottedRuntime :: runtime where
  "dottedRuntime = exampleRuntime\<lparr>toLowerCase := dottedToLowerCase\<rparr>"

definition dottedPage :: ExtractedText where
  "dottedPage =
     \<lparr>pages = [\<lparr>pt_pageNumber = 1, pt_text = [0x130, 0x78, 0x79, 0x7A]\<rparr>],
      totalPages = 1\<rparr>"

definition caseSensitiveHighlight :: "jsstring \<Rightarrow> AnnotationInstruction" where
  "caseSensitiveHighlight t = (highlightOf t None)\<lparr>ai_caseSensitive := Some True\<rparr>"

text \<open>The double nearest to one third, and a text of a hundred letters z and one a.\<close>

definition oneThird :: real where
  "oneThird = 6004799503160661 / 18014398509481984"

definition hundredZ :: jsstring where
  "hundredZ = replicate 100 0x7A @ [0x61]"

lemmas eval_strings =
  js_def isWhitespace_def trim_def replaceChars_def normalizeText_def indexOf_def
  substring_def asciiToLowerCase_def

lemmas eval_search =
  findTextPosition_def findMatch_def pagesToSearch_def searchPage_def foldCase_def truthy_def
  fuzzySearchWithNormalization_def scanBound_def window_def betterMatch_def
  levenshteinDistance_def createTextPosition_def exampleRuntime_def highlightOf_def Let_def
  fuzzyLoop.simps maxDistanceOf_def toDouble_def exponentOf_def pow2_def roundHalfEven_def
  bitLength.simps

lemmas eval_double =
  maxDistanceOf_def toDouble_def exponentOf_def pow2_def roundHalfEven_def bitLength.simps

lemmas eval_apply =
  applyAnnotation_def getPage_def colorOf_def commentOf_def DEFAULT_COLORS_def
  drawComment_def drawHighlight_def drawUnderline_def draw_def rgb_def orElseInt_def
  orElseReal_def failure_def applied_def letterPage_def commentOn_def
  drawRectangle_def drawLine_def drawText_def thrownOr_def afterDrawing_def black_def

section \<open>Lemmas\<close>

subsection \<open>The loop over the instructions\<close>

lemma applyAnnotation_instruction:
  "ar_instruction (fst (applyAnnotation rt pdfDoc extractedText instruction opts)) = instruction"
  by (simp add: applyAnnotation_def afterDrawing_def failure_def applied_def Let_def
      split: option.splits sum.splits AnnotationType.splits prod.splits)

lemma processInstructions_instructions:
  "map ar_instruction (fst (processInstructions rt pdfDoc extractedText opts is)) = is"
proof (induction "is" arbitrary: pdfDoc)
  case Nil
  show ?case by simp
next
  case (Cons i "is")
  obtain r d where a: "applyAnnotation rt pdfDoc extractedText i opts = (r, d)"
    by (cases "applyAnnotation rt pdfDoc extractedText i opts")
  obtain rs ws d' where p: "processInstructions rt d extractedText opts is = (rs, ws, d')"
    by (cases "processInstructions rt d extractedText opts is")
  have "ar_instruction r = i"
    using applyAnnotation_instruction [of rt pdfDoc extractedText i opts] a by simp
  moreover have "map ar_instruction rs = is"
    using Cons.IH [of d] p by simp
  ultimately show ?case
    using a p by simp
qed

lemma processInstructions_append:
  "processInstructions rt pdfDoc extractedText opts (xs @ ys) =
     (case processInstructions rt pdfDoc extractedText opts xs of
        (rs, ws, d) \<Rightarrow>
          (case processInstructions rt d extractedText opts ys of
             (rs', ws', d') \<Rightarrow> (rs @ rs', ws @ ws', d')))"
proof (induction xs arbitrary: pdfDoc)
  case Nil
  show ?case by (simp split: prod.splits)
next
  case (Cons x xs)
  show ?case
    by (simp add: Cons.IH split: prod.splits)
qed

lemma processInstructions_nth:
  assumes "k < length is"
  shows "fst (processInstructions rt pdfDoc extractedText opts is) ! k =
         fst (applyAnnotation rt (documentAfter rt pdfDoc extractedText opts (take k is))
                extractedText (is ! k) opts)"
proof -
  have split: "is = take k is @ (is ! k) # drop (Suc k) is"
    using assms by (simp add: id_take_nth_drop)
  obtain rs ws d where a: "processInstructions rt pdfDoc extractedText opts (take k is) = (rs, ws, d)"
    by (cases "processInstructions rt pdfDoc extractedText opts (take k is)")
  have len: "length rs = k"
  proof -
    have "map ar_instruction rs = take k is"
      using processInstructions_instructions [of rt pdfDoc extractedText opts "take k is"] a
      by simp
    then have "length (map ar_instruction rs) = length (take k is)" by simp
    then show ?thesis using assms by simp
  qed
  obtain r d1 where b: "applyAnnotation rt d extractedText (is ! k) opts = (r, d1)"
    by (cases "applyAnnotation rt d extractedText (is ! k) opts")
  obtain rs' ws' d' where c:
    "processInstructions rt d1 extractedText opts (drop (Suc k) is) = (rs', ws', d')"
    by (cases "processInstructions rt d1 extractedText opts (drop (Suc k) is)")
  have "fst (processInstructions rt pdfDoc extractedText opts
               (take k is @ (is ! k) # drop (Suc k) is)) = rs @ r # rs'"
    by (simp add: processInstructions_append a b c)
  then have "fst (processInstructions rt pdfDoc extractedText opts is) = rs @ r # rs'"
    using split by simp
  then have "fst (processInstructions rt pdfDoc extractedText opts is) ! k = r"
    using len by (simp add: nth_append)
  then show ?thesis
    using a b by (simp add: documentAfter_def)
qed

subsection \<open>A search over no page, a comment of one word\<close>

lemma findTextPosition_no_pages:
  assumes "pagesToSearch extractedText instruction = []"
  shows "findTextPosition rt extractedText instruction opts = None"
  using assms by (simp add: findTextPosition_def findMatch_def Let_def)

lemma fourPages_numbered:
  "\<forall>p \<in> set (pages fourPages). 1 \<le> pt_pageNumber p \<and> pt_pageNumber p \<le> totalPages fourPages"
  by (simp add: fourPages_def)

lemma wrapWords_single:
  "w \<noteq> [] \<Longrightarrow> canEncode rt w \<Longrightarrow> wrapWords rt [w] [] [] = Inr [w]"
  by (simp add: Let_def)

lemma splitSpace_Comment: "splitSpace (js ''Comment'') = [js ''Comment'']"
  by (simp add: js_def)

lemma findTextPosition_abc:
  "findTextPosition exampleRuntime fourPages (commentOn (js ''abc'') c) DEFAULT_ANNOTATION_OPTIONS
     = Some (createTextPosition 1 (js ''abc'') 0 (js ''abc''))"
  by (simp add: eval_search eval_strings fourPages_def DEFAULT_ANNOTATION_OPTIONS_def
      commentOn_def)

subsection \<open>The matrix of \<open>levenshteinDistance\<close> holds the edit distances\<close>

lemma editDistance_zero_right [simp]: "editDistance a b i 0 = i"
  by (cases i) simp_all

lemma editDistance_sym: "editDistance a b i j = editDistance b a j i"
  by (induction a b i j rule: editDistance.induct) (auto simp: min.commute min.left_commute)

lemma editDistance_right_step: "editDistance a b i (Suc j) \<le> editDistance a b i j + 1"
  by (cases i) simp_all

lemma editDistance_left_step: "editDistance a b (Suc i) j \<le> editDistance a b i j + 1"
  by (cases j) simp_all

lemma editDistance_left_back: "editDistance a b i j \<le> editDistance a b (Suc i) j + 1"
proof (induction j)
  case 0
  show ?case by simp
next
  case (Suc j)
  have "editDistance a b i (Suc j) \<le> editDistance a b i j + 1"
    by (rule editDistance_right_step)
  with Suc show ?case by simp
qed

lemma editDistance_right_back: "editDistance a b i j \<le> editDistance a b i (Suc j) + 1"
  using editDistance_left_back [of b a j i] by (simp add: editDistance_sym [of a b])

lemma editDistance_equal:
  "a ! i = b ! j \<Longrightarrow> editDistance a b (Suc i) (Suc j) = editDistance a b i j"
  using editDistance_left_back [of a b i j] editDistance_right_back [of a b i j] by simp

lemma levenshteinRow_cells:
  "j \<le> length b \<Longrightarrow>
   levenshteinRow (a ! i) (drop j b) (map (editDistance a b i) [j..<Suc (length b)])
     (editDistance a b (Suc i) j)
   = map (editDistance a b (Suc i)) [Suc j..<Suc (length b)]"
proof (induction "length b - j" arbitrary: j)
  case 0
  then have "j = length b" by simp
  then show ?case by simp
next
  case (Suc n)
  then have lt: "j < length b" by simp
  have d: "drop j b = b ! j # drop (Suc j) b"
    using lt by (simp add: Cons_nth_drop_Suc)
  have u: "[j..<Suc (length b)] = j # Suc j # [Suc (Suc j)..<Suc (length b)]"
    using lt by (simp add: upt_conv_Cons)
  have u': "[Suc j..<Suc (length b)] = Suc j # [Suc (Suc j)..<Suc (length b)]"
    using lt by (simp add: upt_conv_Cons)
  have cell: "(if a ! i = b ! j then editDistance a b i j
               else min (editDistance a b i j + 1)
                      (min (editDistance a b (Suc i) j + 1) (editDistance a b i (Suc j) + 1)))
              = editDistance a b (Suc i) (Suc j)"
  proof (cases "a ! i = b ! j")
    case True
    then show ?thesis by (simp add: editDistance_equal del: editDistance.simps)
  next
    case False
    then show ?thesis by (simp add: min.commute)
  qed
  have ih: "levenshteinRow (a ! i) (drop (Suc j) b)
              (map (editDistance a b i) [Suc j..<Suc (length b)]) (editDistance a b (Suc i) (Suc j))
            = map (editDistance a b (Suc i)) [Suc (Suc j)..<Suc (length b)]"
    using Suc.hyps(1) [of "Suc j"] Suc.hyps(2) lt by simp
  show ?case
    using ih cell by (simp add: d u u' Let_def del: upt_Suc editDistance.simps)
qed

lemma levenshteinRows_last_row:
  "k \<le> length a \<Longrightarrow>
   levenshteinRows b (map (editDistance a b k) [0..<Suc (length b)]) (Suc k) (drop k a)
   = map (editDistance a b (length a)) [0..<Suc (length b)]"
proof (induction "length a - k" arbitrary: k)
  case 0
  then show ?case by simp
next
  case (Suc n)
  then have lt: "k < length a" by simp
  have d: "drop k a = a ! k # drop (Suc k) a"
    using lt by (simp add: Cons_nth_drop_Suc)
  have row: "Suc k # levenshteinRow (a ! k) b (map (editDistance a b k) [0..<Suc (length b)]) (Suc k)
             = map (editDistance a b (Suc k)) [0..<Suc (length b)]"
    using levenshteinRow_cells [of 0 b a k] by (simp add: upt_conv_Cons del: upt_Suc)
  have "levenshteinRows b (map (editDistance a b (Suc k)) [0..<Suc (length b)]) (Suc (Suc k))
          (drop (Suc k) a) = map (editDistance a b (length a)) [0..<Suc (length b)]"
    using Suc.hyps(1) [of "Suc k"] Suc.hyps(2) lt by simp
  then show ?case
    by (simp only: d levenshteinRows.simps row)
qed

lemma levenshteinDistance_editDistance:
  "levenshteinDistance str1 str2 = editDistance str2 str1 (length str2) (length str1)"
proof -
  have "map (editDistance str2 str1 0) [0..<Suc (length str1)] = [0..<Suc (length str1)]"
    by (simp add: map_idI del: upt_Suc)
  then have "levenshteinRows str1 [0..<Suc (length str1)] 1 str2
             = map (editDistance str2 str1 (length str2)) [0..<Suc (length str1)]"
    using levenshteinRows_last_row [of 0 str2 str1] by simp
  then show ?thesis
    by (simp add: levenshteinDistance_def)
qed

lemma levenshteinDistance_levenshtein:
  "levenshteinDistance str1 str2 = levenshtein str1 str2"
  by (simp add: levenshteinDistance_editDistance levenshtein_def editDistance_sym [of str2 str1])

subsection \<open>The loop of the fuzzy search\<close>

lemma betterMatch_candidate:
  assumes "0 \<le> i" and "i \<le> bound"
    and "int (levenshteinDistance (window text pattern i) pattern) \<le> maxDistance"
    and "(fm_index best = - 1 \<and> fm_distance best = \<infinity>) \<or>
         (0 \<le> fm_index best \<and> fm_index best \<le> bound
          \<and> fm_matchedText best = window text pattern (fm_index best)
          \<and> fm_distance best = enat (levenshteinDistance (fm_matchedText best) pattern)
          \<and> int (levenshteinDistance (fm_matchedText best) pattern) \<le> maxDistance)"
  shows "0 \<le> fm_index (betterMatch text pattern i best)
         \<and> fm_index (betterMatch text pattern i best) \<le> bound
         \<and> fm_matchedText (betterMatch text pattern i best)
             = window text pattern (fm_index (betterMatch text pattern i best))
         \<and> fm_distance (betterMatch text pattern i best)
             = enat (levenshteinDistance (fm_matchedText (betterMatch text pattern i best)) pattern)
         \<and> int (levenshteinDistance (fm_matchedText (betterMatch text pattern i best)) pattern)
             \<le> maxDistance"
proof (cases "enat (levenshteinDistance (window text pattern i) pattern) < fm_distance best")
  case True
  then show ?thesis
    using assms(1,2,3) by (simp add: betterMatch_def)
next
  case False
  then have "fm_distance best \<noteq> \<infinity>" by (cases "fm_distance best") simp_all
  then show ?thesis
    using assms(4) False by (auto simp: betterMatch_def)
qed

lemma fuzzyLoop_candidate:
  "0 \<le> i \<Longrightarrow>
   (fm_index best = - 1 \<and> fm_distance best = \<infinity>) \<or>
     (0 \<le> fm_index best \<and> fm_index best \<le> bound
      \<and> fm_matchedText best = window text pattern (fm_index best)
      \<and> fm_distance best = enat (levenshteinDistance (fm_matchedText best) pattern)
      \<and> int (levenshteinDistance (fm_matchedText best) pattern) \<le> maxDistance) \<Longrightarrow>
   (fm_index (fuzzyLoop text pattern maxDistance bound i best) = - 1
     \<and> fm_distance (fuzzyLoop text pattern maxDistance bound i best) = \<infinity>) \<or>
     (0 \<le> fm_index (fuzzyLoop text pattern maxDistance bound i best)
      \<and> fm_index (fuzzyLoop text pattern maxDistance bound i best) \<le> bound
      \<and> fm_matchedText (fuzzyLoop text pattern maxDistance bound i best)
          = window text pattern (fm_index (fuzzyLoop text pattern maxDistance bound i best))
      \<and> fm_distance (fuzzyLoop text pattern maxDistance bound i best)
          = enat (levenshteinDistance
                    (fm_matchedText (fuzzyLoop text pattern maxDistance bound i best)) pattern)
      \<and> int (levenshteinDistance
                (fm_matchedText (fuzzyLoop text pattern maxDistance bound i best)) pattern)
          \<le> maxDistance)"
proof (induction "text" pattern maxDistance bound i best rule: fuzzyLoop.induct)
  case (1 t pattern maxDistance bound i bestMatch)
  show ?case
  proof (cases "i \<le> bound")
    case False
    then have "fuzzyLoop t pattern maxDistance bound i bestMatch = bestMatch"
      by (subst fuzzyLoop.simps) simp
    then show ?thesis using "1.prems"(2) by simp
  next
    case inb: True
    show ?thesis
    proof (cases "int (levenshteinDistance (window t pattern i) pattern) \<le> maxDistance")
      case False
      then have eq: "fuzzyLoop t pattern maxDistance bound i bestMatch
                 = fuzzyLoop t pattern maxDistance bound (i + 1) bestMatch"
        using inb by (subst fuzzyLoop.simps) simp
      show ?thesis
        unfolding eq
      proof (rule "1.IH"(2) [OF inb False])
        show "0 \<le> i + 1" using "1.prems"(1) by simp
      qed (rule "1.prems"(2))
    next
      case within: True
      have better: "0 \<le> fm_index (betterMatch t pattern i bestMatch)
         \<and> fm_index (betterMatch t pattern i bestMatch) \<le> bound
         \<and> fm_matchedText (betterMatch t pattern i bestMatch)
             = window t pattern (fm_index (betterMatch t pattern i bestMatch))
         \<and> fm_distance (betterMatch t pattern i bestMatch)
             = enat (levenshteinDistance (fm_matchedText (betterMatch t pattern i bestMatch)) pattern)
         \<and> int (levenshteinDistance (fm_matchedText (betterMatch t pattern i bestMatch)) pattern)
             \<le> maxDistance"
        using "1.prems"(1) inb within "1.prems"(2) by (rule betterMatch_candidate)
      show ?thesis
      proof (cases "levenshteinDistance (window t pattern i) pattern \<le> 2")
        case True
        then have eq: "fuzzyLoop t pattern maxDistance bound i bestMatch
                 = betterMatch t pattern i bestMatch"
          using inb within by (subst fuzzyLoop.simps) simp
        show ?thesis
          unfolding eq by (rule disjI2) (rule better)
      next
        case False
        then have eq: "fuzzyLoop t pattern maxDistance bound i bestMatch
                 = fuzzyLoop t pattern maxDistance bound (i + 1)
                     (betterMatch t pattern i bestMatch)"
          using inb within by (subst fuzzyLoop.simps) simp
        show ?thesis
          unfolding eq
        proof (rule "1.IH"(1) [OF inb within False])
          show "0 \<le> i + 1" using "1.prems"(1) by simp
          show "fm_index (betterMatch t pattern i bestMatch) = - 1
                  \<and> fm_distance (betterMatch t pattern i bestMatch) = \<infinity>
                \<or> 0 \<le> fm_index (betterMatch t pattern i bestMatch)
         \<and> fm_index (betterMatch t pattern i bestMatch) \<le> bound
         \<and> fm_matchedText (betterMatch t pattern i bestMatch)
             = window t pattern (fm_index (betterMatch t pattern i bestMatch))
         \<and> fm_distance (betterMatch t pattern i bestMatch)
             = enat (levenshteinDistance (fm_matchedText (betterMatch t pattern i bestMatch)) pattern)
         \<and> int (levenshteinDistance (fm_matchedText (betterMatch t pattern i bestMatch)) pattern)
             \<le> maxDistance"
            by (rule disjI2) (rule better)
        qed
      qed
    qed
  qed
qed

lemma fuzzyLoop_no_candidate:
  "(\<forall>k. i \<le> k \<and> k \<le> bound \<longrightarrow>
        maxDistance < int (levenshteinDistance (window text pattern k) pattern)) \<Longrightarrow>
   fuzzyLoop text pattern maxDistance bound i best = best"
proof (induction "text" pattern maxDistance bound i best rule: fuzzyLoop.induct)
  case (1 t pattern maxDistance bound i bestMatch)
  show ?case
  proof (cases "i \<le> bound")
    case False
    then show ?thesis by (subst fuzzyLoop.simps) simp
  next
    case inb: True
    then have far: "\<not> int (levenshteinDistance (window t pattern i) pattern) \<le> maxDistance"
      using "1.prems" by (simp add: not_le)
    have rest: "\<forall>k. i + 1 \<le> k \<and> k \<le> bound \<longrightarrow>
        maxDistance < int (levenshteinDistance (window t pattern k) pattern)"
      using "1.prems" by simp
    have "fuzzyLoop t pattern maxDistance bound i bestMatch
          = fuzzyLoop t pattern maxDistance bound (i + 1) bestMatch"
      using inb far by (subst fuzzyLoop.simps) simp
    then show ?thesis
      using "1.IH"(2) [OF inb far rest] by simp
  qed
qed

subsection \<open>\<open>indexOf\<close> finds a contiguous sublist\<close>

lemma indexOfFrom_found:
  "indexOfFrom k s p \<noteq> - 1 \<Longrightarrow>
   int k \<le> indexOfFrom k s p
   \<and> indexOfFrom k s p - int k + int (length p) \<le> int (length s)
   \<and> sublist p s"
proof (induction s arbitrary: k)
  case Nil
  then show ?case by (simp split: if_splits)
next
  case (Cons c cs)
  show ?case
  proof (cases "prefix p (c # cs)")
    case True
    then show ?thesis
      using prefix_length_le [of p "c # cs"] by (auto simp: prefix_imp_sublist)
  next
    case False
    then have "indexOfFrom (Suc k) cs p \<noteq> - 1"
      using Cons.prems by simp
    then have "int (Suc k) \<le> indexOfFrom (Suc k) cs p
       \<and> indexOfFrom (Suc k) cs p - int (Suc k) + int (length p) \<le> int (length cs)
       \<and> sublist p cs"
      by (rule Cons.IH)
    then show ?thesis
      using False by (auto simp: sublist_Cons_right)
  qed
qed

lemma indexOfFrom_sublist:
  "sublist p s \<Longrightarrow> indexOfFrom k s p \<noteq> - 1"
proof (induction s arbitrary: k)
  case Nil
  then show ?case by simp
next
  case (Cons c cs)
  show ?case
  proof (cases "prefix p (c # cs)")
    case True
    then show ?thesis by simp
  next
    case False
    then have "sublist p cs"
      using Cons.prems by (simp add: sublist_Cons_right)
    then have "indexOfFrom (Suc k) cs p \<noteq> - 1"
      by (rule Cons.IH)
    then show ?thesis using False by simp
  qed
qed

lemma indexOf_bounds:
  "indexOf s p \<noteq> - 1 \<Longrightarrow> 0 \<le> indexOf s p \<and> indexOf s p + int (length p) \<le> int (length s)"
  using indexOfFrom_found [of 0 s p] by (simp add: indexOf_def)

lemma indexOf_found_iff: "indexOf s p \<noteq> - 1 \<longleftrightarrow> sublist p s"
  using indexOfFrom_found [of 0 s p] indexOfFrom_sublist [of p s 0] by (auto simp: indexOf_def)

subsection \<open>\<open>collapseWhitespace\<close> and concatenation\<close>

lemma dropWhile_all: "\<forall>x\<in>set xs. P x \<Longrightarrow> dropWhile P xs = []"
  by simp

lemma collapseWhitespace_all_ws:
  "\<forall>x\<in>set s. isWhitespace x \<Longrightarrow> collapseWhitespace s = (if s = [] then [] else [0x20])"
  by (cases s) (simp_all add: dropWhile_all)

lemma collapseWhitespace_append_left:
  "ys = [] \<or> \<not> isWhitespace (hd ys) \<Longrightarrow>
   collapseWhitespace (xs @ ys) = collapseWhitespace xs @ collapseWhitespace ys"
proof (induction xs rule: collapseWhitespace.induct)
  case 1
  show ?case by simp
next
  case (2 c cs)
  show ?case
  proof (cases "isWhitespace c")
    case False
    then show ?thesis using 2 by simp
  next
    case True
    have dw: "dropWhile isWhitespace ys = ys"
      using "2.prems" by (cases ys) auto
    show ?thesis
    proof (cases "\<forall>x\<in>set cs. isWhitespace x")
      case all: True
      then show ?thesis
        using True dw by (simp add: dropWhile_append dropWhile_all)
    next
      case notall: False
      then have "dropWhile isWhitespace (cs @ ys) = dropWhile isWhitespace cs @ ys"
        by (auto simp: dropWhile_append)
      then show ?thesis
        using True "2.IH"(1) [OF True "2.prems"] by simp
    qed
  qed
qed

lemma collapseWhitespace_append_right:
  "xs \<noteq> [] \<Longrightarrow> \<not> isWhitespace (last xs) \<Longrightarrow>
   collapseWhitespace (xs @ ys) = collapseWhitespace xs @ collapseWhitespace ys"
proof (induction xs rule: collapseWhitespace.induct)
  case 1
  then show ?case by simp
next
  case (2 c cs)
  show ?case
  proof (cases "isWhitespace c")
    case False
    show ?thesis
    proof (cases "cs = []")
      case True
      then show ?thesis using False by simp
    next
      case ne: False
      then show ?thesis using False "2.IH"(2) [OF False ne] "2.prems" by simp
    qed
  next
    case True
    then have ne: "cs \<noteq> []" using "2.prems" by auto
    then have l: "\<not> isWhitespace (last cs)" using "2.prems" by simp
    then have notall: "\<not> (\<forall>x\<in>set cs. isWhitespace x)"
      using ne last_in_set by blast
    then have d: "dropWhile isWhitespace (cs @ ys) = dropWhile isWhitespace cs @ ys"
      by (auto simp: dropWhile_append)
    have dne: "dropWhile isWhitespace cs \<noteq> []"
      using notall by simp
    have "last (dropWhile isWhitespace cs) = last cs"
      using dne by (metis last_appendR takeWhile_dropWhile_id)
    then have "collapseWhitespace (dropWhile isWhitespace cs @ ys)
               = collapseWhitespace (dropWhile isWhitespace cs) @ collapseWhitespace ys"
      using "2.IH"(1) [OF True dne] l by simp
    then show ?thesis
      using True d by simp
  qed
qed

lemma collapseWhitespace_hd:
  "xs \<noteq> [] \<Longrightarrow> \<not> isWhitespace (hd xs) \<Longrightarrow>
   collapseWhitespace xs \<noteq> [] \<and> hd (collapseWhitespace xs) = hd xs"
  by (cases xs) simp_all

lemma collapseWhitespace_last:
  "xs \<noteq> [] \<Longrightarrow> \<not> isWhitespace (last xs) \<Longrightarrow>
   collapseWhitespace xs \<noteq> [] \<and> last (collapseWhitespace xs) = last xs"
proof (induction xs rule: collapseWhitespace.induct)
  case 1
  then show ?case by simp
next
  case (2 c cs)
  show ?case
  proof (cases "isWhitespace c")
    case False
    show ?thesis
    proof (cases "cs = []")
      case True
      then show ?thesis using False by simp
    next
      case ne: False
      then show ?thesis using False "2.IH"(2) [OF False ne] "2.prems" by simp
    qed
  next
    case True
    then have ne: "cs \<noteq> []" using "2.prems" by auto
    then have l: "\<not> isWhitespace (last cs)" using "2.prems" by simp
    then have notall: "\<not> (\<forall>x\<in>set cs. isWhitespace x)"
      using ne last_in_set by blast
    have dne: "dropWhile isWhitespace cs \<noteq> []"
      using notall by simp
    have dl: "last (dropWhile isWhitespace cs) = last cs"
      using dne by (metis last_appendR takeWhile_dropWhile_id)
    have "collapseWhitespace (dropWhile isWhitespace cs) \<noteq> []
          \<and> last (collapseWhitespace (dropWhile isWhitespace cs)) = last (dropWhile isWhitespace cs)"
      using "2.IH"(1) [OF True dne] l dl by simp
    then show ?thesis
      using True dl ne by simp
  qed
qed

subsection \<open>\<open>trim\<close> keeps the core of a string\<close>

lemma dropWhile_hd: "zs \<noteq> [] \<Longrightarrow> \<not> P (hd zs) \<Longrightarrow> dropWhile P zs = zs"
  by (cases zs) simp_all

lemma dropWhile_keeps:
  "zs \<noteq> [] \<Longrightarrow> \<not> P (hd zs) \<Longrightarrow> \<exists>xs'. dropWhile P (xs @ zs) = xs' @ zs"
proof (cases "\<forall>x\<in>set xs. P x")
  case True
  assume "zs \<noteq> []" "\<not> P (hd zs)"
  then have "dropWhile P zs = zs" by (cases zs) simp_all
  then have "dropWhile P (xs @ zs) = [] @ zs"
    using True by (simp add: dropWhile_append)
  then show ?thesis by blast
next
  case False
  then have "dropWhile P (xs @ zs) = dropWhile P xs @ zs"
    by (auto simp: dropWhile_append)
  then show ?thesis by blast
qed

lemma trim_keeps:
  assumes "c \<noteq> []" "\<not> isWhitespace (hd c)" "\<not> isWhitespace (last c)"
  shows "\<exists>x' y'. trim (x @ c @ y) = x' @ c @ y'"
proof -
  have "c @ y \<noteq> []" "\<not> isWhitespace (hd (c @ y))"
    using assms by simp_all
  then obtain x' where 1: "dropWhile isWhitespace (x @ c @ y) = x' @ c @ y"
    using dropWhile_keeps [of "c @ y" isWhitespace x] by auto
  have "rev c @ rev x' \<noteq> []" "\<not> isWhitespace (hd (rev c @ rev x'))"
    using assms by (simp_all add: hd_rev)
  then obtain y'' where 2: "dropWhile isWhitespace (rev y @ rev c @ rev x') = y'' @ rev c @ rev x'"
    using dropWhile_keeps [of "rev c @ rev x'" isWhitespace "rev y"] by auto
  have "trim (x @ c @ y) = x' @ c @ rev y''"
    using 1 2 by (simp add: trim_def)
  then show ?thesis by blast
qed

lemma trim_exact:
  assumes "c \<noteq> []" "\<not> isWhitespace (hd c)" "\<not> isWhitespace (last c)"
    and "\<forall>a\<in>set x. isWhitespace a" "\<forall>a\<in>set y. isWhitespace a"
  shows "trim (x @ c @ y) = c"
proof -
  have cy: "dropWhile isWhitespace (c @ y) = c @ y"
    using assms(1,2) by (cases c) simp_all
  have 1: "dropWhile isWhitespace (x @ c @ y) = c @ y"
    using assms(4) cy by (simp add: dropWhile_append)
  have "hd (rev c) = last c" "rev c \<noteq> []"
    using assms(1) by (simp_all add: hd_rev)
  then have rc: "dropWhile isWhitespace (rev c) = rev c"
    using assms(3) by (simp add: dropWhile_hd)
  have 2: "dropWhile isWhitespace (rev y @ rev c) = rev c"
    using assms(5) rc by (simp add: dropWhile_append)
  show ?thesis
    using 1 2 by (simp add: trim_def)
qed

lemma trim_all_ws: "\<forall>a\<in>set x. isWhitespace a \<Longrightarrow> trim x = []"
  by (simp add: trim_def dropWhile_all)

subsection \<open>The character replacements\<close>


lemma replacements_map:
  "replaceChars [0x2013, 0x2014] 0x2D (replaceChars [0x22, 0x22] 0x22 (replaceChars [0x27, 0x27] 0x27 s))
   = map norm_char s"
  by (induction s) (auto simp: replaceChars_def norm_char_def)

lemma norm_char_ws [simp]: "isWhitespace (norm_char c) = isWhitespace c"
proof (cases "c = 0x2013 \<or> c = 0x2014")
  case True
  then have "\<not> isWhitespace c"
    by (rule disjE) (simp_all add: isWhitespace_def)
  moreover have "\<not> isWhitespace 0x2D"
    by (simp add: isWhitespace_def)
  ultimately show ?thesis
    using True by (simp add: norm_char_def)
next
  case False
  then show ?thesis by (simp add: norm_char_def)
qed

lemma normalizeText_map: "normalizeText s = trim (map norm_char (collapseWhitespace s))"
  by (simp add: normalizeText_def replacements_map)

subsection \<open>A text found in the raw page is found in the normalized page\<close>

lemma ws_decompose:
  assumes "\<not> (\<forall>x\<in>set s. isWhitespace x)"
  shows "\<exists>l c r. s = l @ c @ r \<and> (\<forall>x\<in>set l. isWhitespace x) \<and> (\<forall>x\<in>set r. isWhitespace x)
           \<and> c \<noteq> [] \<and> \<not> isWhitespace (hd c) \<and> \<not> isWhitespace (last c)"
proof -
  let ?l = "takeWhile isWhitespace s"
  let ?rest = "dropWhile isWhitespace s"
  let ?c = "rev (dropWhile isWhitespace (rev ?rest))"
  let ?r = "rev (takeWhile isWhitespace (rev ?rest))"
  have rest_ne: "?rest \<noteq> []" using assms by simp
  have hd_rest: "\<not> isWhitespace (hd ?rest)" using rest_ne by (rule hd_dropWhile)
  have "?c @ ?r = rev (takeWhile isWhitespace (rev ?rest) @ dropWhile isWhitespace (rev ?rest))"
    by (simp only: rev_append)
  also have "\<dots> = ?rest"
    by (simp only: takeWhile_dropWhile_id rev_rev_ident)
  finally have rest: "?rest = ?c @ ?r" by (rule sym)
  have "hd ?rest \<in> set (rev ?rest)" using rest_ne by simp
  then have "\<not> (\<forall>x\<in>set (rev ?rest). isWhitespace x)" using hd_rest by blast
  then have d_ne: "dropWhile isWhitespace (rev ?rest) \<noteq> []" by simp
  then have c_ne: "?c \<noteq> []" by simp
  have "\<not> isWhitespace (hd (dropWhile isWhitespace (rev ?rest)))"
    using d_ne by (rule hd_dropWhile)
  then have c_last: "\<not> isWhitespace (last ?c)"
    using d_ne by (simp add: last_rev)
  have "hd ?rest = hd ?c" using rest c_ne by (metis hd_append2)
  then have c_hd: "\<not> isWhitespace (hd ?c)" using hd_rest by simp
  have l_ws: "\<forall>x\<in>set ?l. isWhitespace x" by (auto dest: set_takeWhileD)
  have r_ws: "\<forall>x\<in>set ?r. isWhitespace x" by (auto dest: set_takeWhileD)
  have "s = ?l @ ?rest" by simp
  then have "s = ?l @ ?c @ ?r" using rest by simp
  then show ?thesis
    using l_ws r_ws c_ne c_hd c_last by blast
qed

lemma collapse_three:
  assumes "c \<noteq> []" "\<not> isWhitespace (hd c)" "\<not> isWhitespace (last c)"
  shows "collapseWhitespace (x @ c @ y)
         = collapseWhitespace x @ collapseWhitespace c @ collapseWhitespace y"
proof -
  have "collapseWhitespace (x @ c @ y) = collapseWhitespace x @ collapseWhitespace (c @ y)"
    using assms(1,2) by (intro collapseWhitespace_append_left) simp
  also have "collapseWhitespace (c @ y) = collapseWhitespace c @ collapseWhitespace y"
    using assms(1,3) by (rule collapseWhitespace_append_right)
  finally show ?thesis .
qed

lemma core_normalized:
  assumes "c \<noteq> []" "\<not> isWhitespace (hd c)" "\<not> isWhitespace (last c)"
  shows "map norm_char (collapseWhitespace c) \<noteq> []
         \<and> \<not> isWhitespace (hd (map norm_char (collapseWhitespace c)))
         \<and> \<not> isWhitespace (last (map norm_char (collapseWhitespace c)))"
proof -
  have h: "collapseWhitespace c \<noteq> [] \<and> hd (collapseWhitespace c) = hd c"
    using assms(1,2) by (rule collapseWhitespace_hd)
  have l: "collapseWhitespace c \<noteq> [] \<and> last (collapseWhitespace c) = last c"
    using assms(1,3) by (rule collapseWhitespace_last)
  show ?thesis
    using h l assms(2,3) by (simp add: hd_map last_map)
qed

lemma collapse_ws_is_ws:
  "\<forall>a\<in>set x. isWhitespace a \<Longrightarrow> \<forall>a\<in>set (map norm_char (collapseWhitespace x)). isWhitespace a"
  by (simp add: collapseWhitespace_all_ws norm_char_def isWhitespace_def)

lemma normalizeText_core:
  assumes "c \<noteq> []" "\<not> isWhitespace (hd c)" "\<not> isWhitespace (last c)"
    and "\<forall>a\<in>set l. isWhitespace a" "\<forall>a\<in>set r. isWhitespace a"
  shows "normalizeText (l @ c @ r) = map norm_char (collapseWhitespace c)"
proof -
  let ?C = "map norm_char (collapseWhitespace c)"
  have C: "?C \<noteq> [] \<and> \<not> isWhitespace (hd ?C) \<and> \<not> isWhitespace (last ?C)"
    using assms(1,2,3) by (rule core_normalized)
  have "normalizeText (l @ c @ r)
        = trim (map norm_char (collapseWhitespace l) @ ?C @ map norm_char (collapseWhitespace r))"
    using assms(1,2,3) by (simp add: normalizeText_map collapse_three)
  also have "\<dots> = ?C"
    using C collapse_ws_is_ws [OF assms(4)] collapse_ws_is_ws [OF assms(5)]
    by (intro trim_exact) simp_all
  finally show ?thesis .
qed

lemma normalizeText_contains_core:
  assumes "c \<noteq> []" "\<not> isWhitespace (hd c)" "\<not> isWhitespace (last c)"
  shows "\<exists>x' y'. normalizeText (x @ c @ y) = x' @ map norm_char (collapseWhitespace c) @ y'"
proof -
  let ?C = "map norm_char (collapseWhitespace c)"
  have C: "?C \<noteq> [] \<and> \<not> isWhitespace (hd ?C) \<and> \<not> isWhitespace (last ?C)"
    using assms(1,2,3) by (rule core_normalized)
  have "normalizeText (x @ c @ y)
        = trim (map norm_char (collapseWhitespace x) @ ?C @ map norm_char (collapseWhitespace y))"
    using assms(1,2,3) by (simp add: normalizeText_map collapse_three)
  then show ?thesis
    using C trim_keeps [of ?C "map norm_char (collapseWhitespace x)"
                          "map norm_char (collapseWhitespace y)"]
    by simp
qed

lemma normalizeText_all_ws:
  assumes "\<forall>a\<in>set s. isWhitespace a"
  shows "normalizeText s = []"
  using collapse_ws_is_ws [OF assms] by (simp add: normalizeText_map trim_all_ws)

lemma normalizeText_sublist:
  assumes "sublist st pt"
  shows "sublist (normalizeText st) (normalizeText pt)"
proof (cases "\<forall>x\<in>set st. isWhitespace x")
  case True
  then have "normalizeText st = []" by (rule normalizeText_all_ws)
  then show ?thesis by simp
next
  case False
  then obtain l c r where d: "st = l @ c @ r" "\<forall>x\<in>set l. isWhitespace x" "\<forall>x\<in>set r. isWhitespace x"
      "c \<noteq> []" "\<not> isWhitespace (hd c)" "\<not> isWhitespace (last c)"
    using ws_decompose [of st] by blast
  obtain a b where "pt = a @ st @ b"
    using assms by (auto simp: sublist_def)
  then have pt: "pt = (a @ l) @ c @ (r @ b)"
    using d(1) by simp
  have n1: "normalizeText st = map norm_char (collapseWhitespace c)"
    unfolding d(1) using d(4,5,6,2,3) by (rule normalizeText_core)
  obtain x' y' where n2: "normalizeText pt = x' @ map norm_char (collapseWhitespace c) @ y'"
    unfolding pt using normalizeText_contains_core [OF d(4,5,6), of "a @ l" "r @ b"] by blast
  show ?thesis
    unfolding n1 n2 by (rule sublist_appendI)
qed

lemma raw_match_is_exact_match:
  "indexOf pageText searchText \<noteq> - 1 \<Longrightarrow>
   indexOf (normalizeText pageText) (normalizeText searchText) \<noteq> - 1"
  by (simp add: indexOf_found_iff normalizeText_sublist)

subsection \<open>\<open>normalizeText\<close> is idempotent\<close>

lemma norm_char_idem [simp]: "norm_char (norm_char c) = norm_char c"
  by (simp add: norm_char_def)

lemma norm_char_space [simp]: "norm_char 0x20 = 0x20"
  by (simp add: norm_char_def)

lemma collapseWhitespace_idem_map:
  "collapseWhitespace (map norm_char (collapseWhitespace xs)) = map norm_char (collapseWhitespace xs)"
proof (induction xs rule: collapseWhitespace.induct)
  case 1
  show ?case by simp
next
  case (2 c cs)
  show ?case
  proof (cases "isWhitespace c")
    case False
    then show ?thesis using "2.IH"(2) by simp
  next
    case True
    let ?d = "dropWhile isWhitespace cs"
    let ?M = "map norm_char (collapseWhitespace ?d)"
    have keep: "dropWhile isWhitespace ?M = ?M"
    proof (cases "?d = []")
      case True
      then have "?M = []" by (simp only: collapseWhitespace.simps list.map)
      then show ?thesis by (simp only: dropWhile.simps)
    next
      case False
      then have "\<not> isWhitespace (hd ?d)" by (rule hd_dropWhile)
      then have "collapseWhitespace ?d \<noteq> [] \<and> hd (collapseWhitespace ?d) = hd ?d"
        using False collapseWhitespace_hd by blast
      then have "?M \<noteq> []" "\<not> isWhitespace (hd ?M)"
        using \<open>\<not> isWhitespace (hd ?d)\<close> by (simp_all add: hd_map)
      then show ?thesis by (rule dropWhile_hd)
    qed
    have "collapseWhitespace (0x20 # ?M) = 0x20 # collapseWhitespace (dropWhile isWhitespace ?M)"
      by (simp add: isWhitespace_def)
    then have "collapseWhitespace (0x20 # ?M) = 0x20 # ?M"
      using keep "2.IH"(1) [OF True] by simp
    then show ?thesis
      using True by simp
  qed
qed

lemma normalizeText_idempotent: "normalizeText (normalizeText s) = normalizeText s"
proof (cases "\<forall>x\<in>set s. isWhitespace x")
  case True
  then have "normalizeText s = []" by (rule normalizeText_all_ws)
  then show ?thesis by (simp add: normalizeText_all_ws)
next
  case False
  then obtain l c r where d: "s = l @ c @ r" "\<forall>x\<in>set l. isWhitespace x" "\<forall>x\<in>set r. isWhitespace x"
      "c \<noteq> []" "\<not> isWhitespace (hd c)" "\<not> isWhitespace (last c)"
    using ws_decompose [of s] by blast
  let ?C = "map norm_char (collapseWhitespace c)"
  have n: "normalizeText s = ?C"
    unfolding d(1) using d(4,5,6,2,3) by (rule normalizeText_core)
  have C: "?C \<noteq> [] \<and> \<not> isWhitespace (hd ?C) \<and> \<not> isWhitespace (last ?C)"
    using d(4,5,6) by (rule core_normalized)
  have "normalizeText ([] @ ?C @ []) = map norm_char (collapseWhitespace ?C)"
    using C by (intro normalizeText_core) simp_all
  then have "normalizeText ?C = map norm_char ?C"
    by (simp add: collapseWhitespace_idem_map)
  then have "normalizeText ?C = ?C"
    by simp
  then show ?thesis
    using n by simp
qed

subsection \<open>Every strategy stays within the normalized page\<close>

lemma window_within:
  assumes "0 \<le> i" "i \<le> scanBound t p"
  shows "length (window t p i) = length p \<and> i + int (length p) \<le> int (length t)"
proof -
  have b: "i + int (length p) \<le> int (length t)"
    using assms(2) by (simp add: scanBound_def)
  obtain k where k: "i = int k"
    using assms(1) by (auto dest: zero_le_imp_eq_int)
  have kb: "k + length p \<le> length t"
    using b k by simp
  have "window t p i = take (length p) (drop k t)"
    using kb by (simp add: window_def substring_def Let_def k)
  then have "length (window t p i) = length p"
    using kb by simp
  then show ?thesis
    using b by simp
qed

lemma fuzzy_within:
  assumes "fm_index (fuzzySearchWithNormalization t p tol) \<noteq> - 1"
  shows "0 \<le> fm_index (fuzzySearchWithNormalization t p tol)
         \<and> fm_index (fuzzySearchWithNormalization t p tol)
             + int (length (fm_matchedText (fuzzySearchWithNormalization t p tol)))
             \<le> int (length t)"
proof -
  let ?r = "fuzzySearchWithNormalization t p tol"
  have "(fm_index ?r = - 1 \<and> fm_distance ?r = \<infinity>) \<or>
     (0 \<le> fm_index ?r \<and> fm_index ?r \<le> scanBound t p
      \<and> fm_matchedText ?r = window t p (fm_index ?r)
      \<and> fm_distance ?r = enat (levenshteinDistance (fm_matchedText ?r) p)
      \<and> int (levenshteinDistance (fm_matchedText ?r) p) \<le> maxDistanceOf p tol)"
    unfolding fuzzySearchWithNormalization_def
    by (rule fuzzyLoop_candidate) simp_all
  then have c: "0 \<le> fm_index ?r" "fm_index ?r \<le> scanBound t p"
      "fm_matchedText ?r = window t p (fm_index ?r)"
    using assms by auto
  show ?thesis
    using window_within [OF c(1,2)] c(1,3) by simp
qed

lemma fuzzy_pattern_too_long:
  assumes "length t < length p"
  shows "fm_index (fuzzySearchWithNormalization t p tol) = - 1"
proof -
  have "scanBound t p < 0" using assms by (simp add: scanBound_def)
  then show ?thesis
    by (simp add: fuzzySearchWithNormalization_def fuzzyLoop.simps)
qed

lemma substring_prefix_length:
  "n \<le> length s \<Longrightarrow> length (substring s 0 (int n)) = n"
  by (simp add: substring_def Let_def min_def max_def)

lemma searchPage_within:
  assumes "searchPage rt instruction opts searchText (normalizeText searchText) page = Some m"
  shows "m_pageNumber m = pt_pageNumber page
         \<and> m_strategy m \<noteq> RawFallback
         \<and> 0 \<le> m_index m
         \<and> m_index m + int (length (m_matchedText m))
             \<le> int (length (normalizeText (foldCase rt instruction (pt_text page))))"
proof -
  let ?pt = "foldCase rt instruction (pt_text page)"
  let ?npt = "normalizeText ?pt"
  let ?nst = "normalizeText searchText"
  let ?f = "fuzzySearchWithNormalization ?npt ?nst (matchTolerance opts)"
  have raw: "indexOf ?npt ?nst = - 1 \<Longrightarrow> indexOf ?pt searchText = - 1"
    using raw_match_is_exact_match [of ?pt searchText] by blast
  have p50: "length ?nst > 50 \<Longrightarrow> length (substring ?nst 0 50) = 50"
    using substring_prefix_length [of 50 ?nst] by simp
  have p30: "length ?nst > 30 \<Longrightarrow> length (substring ?nst 0 30) = 30"
    using substring_prefix_length [of 30 ?nst] by simp
  consider
      (exact) "indexOf ?npt ?nst \<noteq> - 1"
        "m = \<lparr>m_strategy = Exact, m_pageNumber = pt_pageNumber page,
              m_index = indexOf ?npt ?nst, m_matchedText = ?nst\<rparr>"
    | (partial50) "length ?nst > 50" "indexOf ?npt (substring ?nst 0 50) \<noteq> - 1"
        "m = \<lparr>m_strategy = Partial50, m_pageNumber = pt_pageNumber page,
              m_index = indexOf ?npt (substring ?nst 0 50), m_matchedText = substring ?nst 0 50\<rparr>"
    | (partial30) "length ?nst > 30" "indexOf ?npt (substring ?nst 0 30) \<noteq> - 1"
        "m = \<lparr>m_strategy = Partial30, m_pageNumber = pt_pageNumber page,
              m_index = indexOf ?npt (substring ?nst 0 30), m_matchedText = substring ?nst 0 30\<rparr>"
    | (fuzzy) "fm_index ?f \<noteq> - 1"
        "m = \<lparr>m_strategy = Fuzzy, m_pageNumber = pt_pageNumber page,
              m_index = fm_index ?f, m_matchedText = fm_matchedText ?f\<rparr>"
    using assms raw
    by (auto simp: searchPage_def Let_def split: if_splits)
  then show ?thesis
  proof cases
    case exact
    then show ?thesis using indexOf_bounds [of ?npt ?nst] by simp
  next
    case partial50
    then show ?thesis using indexOf_bounds [of ?npt "substring ?nst 0 50"] p50 by simp
  next
    case partial30
    then show ?thesis using indexOf_bounds [of ?npt "substring ?nst 0 30"] p30 by simp
  next
    case fuzzy
    then show ?thesis using fuzzy_within [of ?npt ?nst "matchTolerance opts"] by simp
  qed
qed

lemma searchPages_page:
  "searchPages rt instruction opts searchText normalizedSearchText ps = Some m \<Longrightarrow>
   \<exists>page. page \<in> set ps
     \<and> searchPage rt instruction opts searchText normalizedSearchText page = Some m"
proof (induction ps)
  case Nil
  then show ?case by simp
next
  case (Cons page ps)
  show ?case
  proof (cases "searchPage rt instruction opts searchText normalizedSearchText page")
    case (Some m')
    then have "m' = m" using Cons.prems by simp
    then show ?thesis using Some by auto
  next
    case None
    then have "searchPages rt instruction opts searchText normalizedSearchText ps = Some m"
      using Cons.prems by (simp split: if_splits)
    then show ?thesis using Cons.IH by auto
  qed
qed

lemma findMatch_xyz_page2:
  "findMatch exampleRuntime fourPages (highlightOf (js ''xyz'') (Some 2)) DEFAULT_ANNOTATION_OPTIONS
   = Some \<lparr>m_strategy = Exact, m_pageNumber = 2, m_index = 0, m_matchedText = js ''xyz''\<rparr>"
  by (simp add: eval_search eval_strings fourPages_def DEFAULT_ANNOTATION_OPTIONS_def)

subsection \<open>An empty pattern, a pattern longer than the page\<close>

lemma indexOf_empty: "indexOf s [] = 0"
  by (cases s) (simp_all add: indexOf_def)

lemma indexOf_too_long:
  assumes "length s < length p"
  shows "indexOf s p = - 1"
proof (rule ccontr)
  assume "indexOf s p \<noteq> - 1"
  then have "0 \<le> indexOf s p \<and> indexOf s p + int (length p) \<le> int (length s)"
    by (rule indexOf_bounds)
  then show False using assms by simp
qed

lemma searchPage_empty_pattern:
  "searchPage rt instruction opts searchText [] page
   = Some \<lparr>m_strategy = Exact, m_pageNumber = pt_pageNumber page, m_index = 0, m_matchedText = []\<rparr>"
  by (simp add: searchPage_def Let_def indexOf_empty)

lemma searchPage_pattern_too_long:
  assumes "length (normalizeText (foldCase rt instruction (pt_text page)))
           < length (normalizeText searchText)"
  shows "(\<forall>m. searchPage rt instruction opts searchText (normalizeText searchText) page = Some m
            \<longrightarrow> m_strategy m = Partial50 \<or> m_strategy m = Partial30)
         \<and> (length (normalizeText searchText) \<le> 30
            \<longrightarrow> searchPage rt instruction opts searchText (normalizeText searchText) page = None)"
proof -
  let ?pt = "foldCase rt instruction (pt_text page)"
  let ?npt = "normalizeText ?pt"
  let ?nst = "normalizeText searchText"
  have exact: "indexOf ?npt ?nst = - 1"
    using assms by (rule indexOf_too_long)
  have raw: "indexOf ?pt searchText = - 1"
    using exact raw_match_is_exact_match [of ?pt searchText] by blast
  have fuzzy: "fm_index (fuzzySearchWithNormalization ?npt ?nst (matchTolerance opts)) = - 1"
    using assms by (rule fuzzy_pattern_too_long)
  show ?thesis
    using exact raw fuzzy by (auto simp: searchPage_def Let_def)
qed

lemma searchPages_none:
  "\<forall>p\<in>set ps. searchPage rt instruction opts searchText normalizedSearchText p = None \<Longrightarrow>
   searchPages rt instruction opts searchText normalizedSearchText ps = None"
  by (induction ps) simp_all

lemma empty_pattern_pages:
  "normalizeText (foldCase exampleRuntime (highlightOf [] None) (ai_text (highlightOf [] None))) = []
   \<and> pagesToSearch fourPages (highlightOf [] None)
       = \<lparr>pt_pageNumber = 1, pt_text = js ''abc''\<rparr> # tl (pages fourPages)"
  by (simp add: eval_search eval_strings fourPages_def)

lemma abcdef_too_long:
  "(\<forall>p\<in>set (pagesToSearch fourPages (highlightOf (js ''abcdef'') None)).
      length (normalizeText (foldCase exampleRuntime (highlightOf (js ''abcdef'') None) (pt_text p)))
        < length (normalizeText (foldCase exampleRuntime (highlightOf (js ''abcdef'') None)
                                   (ai_text (highlightOf (js ''abcdef'') None)))))
   \<and> length (normalizeText (foldCase exampleRuntime (highlightOf (js ''abcdef'') None)
                              (ai_text (highlightOf (js ''abcdef'') None)))) \<le> 30"
  by (simp add: eval_search eval_strings fourPages_def)

lemma alphabet_partial:
  "(\<forall>p\<in>set (pagesToSearch alphabetPage (highlightOf (js ''abcdefghijklmnopqrstuvwxyz012345'') None)).
      length (normalizeText (foldCase exampleRuntime
                (highlightOf (js ''abcdefghijklmnopqrstuvwxyz012345'') None) (pt_text p)))
        < length (normalizeText (foldCase exampleRuntime
                    (highlightOf (js ''abcdefghijklmnopqrstuvwxyz012345'') None)
                    (ai_text (highlightOf (js ''abcdefghijklmnopqrstuvwxyz012345'') None)))))
   \<and> findMatch exampleRuntime alphabetPage
        (highlightOf (js ''abcdefghijklmnopqrstuvwxyz012345'') None) DEFAULT_ANNOTATION_OPTIONS
      = Some \<lparr>m_strategy = Partial30, m_pageNumber = 1, m_index = 0,
              m_matchedText = js ''abcdefghijklmnopqrstuvwxyz0123''\<rparr>"
  by (simp add: eval_search eval_strings alphabetPage_def DEFAULT_ANNOTATION_OPTIONS_def)

subsection \<open>The scan of the fuzzy search on closed examples\<close>

text \<open>
  The scan passes over a run of windows that all exceed the bound without changing the
  best match.
\<close>

lemma fuzzyLoop_skip:
  "(\<forall>k. i \<le> k \<and> k < j \<longrightarrow>
        maxDistance < int (levenshteinDistance (window t p k) p)) \<Longrightarrow>
   i \<le> j \<Longrightarrow> j \<le> bound + 1 \<Longrightarrow>
   fuzzyLoop t p maxDistance bound i best = fuzzyLoop t p maxDistance bound j best"
proof (induction "nat (j - i)" arbitrary: i)
  case 0
  then have "i = j" by simp
  then show ?case by simp
next
  case (Suc n)
  then have lt: "i < j" by simp
  then have inb: "i \<le> bound" using Suc.prems(3) by simp
  have far: "\<not> int (levenshteinDistance (window t p i) p) \<le> maxDistance"
    using Suc.prems(1) lt by (simp add: not_le)
  have step: "fuzzyLoop t p maxDistance bound i best
              = fuzzyLoop t p maxDistance bound (i + 1) best"
    using inb far by (subst fuzzyLoop.simps) simp
  have "fuzzyLoop t p maxDistance bound (i + 1) best = fuzzyLoop t p maxDistance bound j best"
  proof (rule Suc.hyps(1))
    show "n = nat (j - (i + 1))" using Suc.hyps(2) by simp
    show "\<forall>k. i + 1 \<le> k \<and> k < j \<longrightarrow>
            maxDistance < int (levenshteinDistance (window t p k) p)"
      using Suc.prems(1) by simp
    show "i + 1 \<le> j" using lt by simp
    show "j \<le> bound + 1" by (rule Suc.prems(3))
  qed
  then show ?case using step by simp
qed

text \<open>
  The text of a hundred letters z and one a, searched for the pattern a: the first
  hundred windows are z, the window at offset 100 is a.
\<close>

lemma hundredZ_window:
  assumes "n \<le> 100"
  shows "window hundredZ (js ''a'') (int n) = (if n < 100 then js ''z'' else js ''a'')"
proof -
  have "drop n (replicate 100 (0x7A :: jschar) @ [0x61]) = replicate (100 - n) 0x7A @ [0x61]"
    using assms by simp
  then have "take 1 (drop n (replicate 100 (0x7A :: jschar) @ [0x61]))
             = (if n < 100 then [0x7A] else [0x61])"
    by (cases "100 - n") auto
  then show ?thesis
    using assms by (simp add: window_def substring_def hundredZ_def js_def Let_def)
qed

lemma hundredZ_first_windows:
  "list_all (\<lambda>k. levenshtein (window hundredZ (js ''a'') (int k)) (js ''a'') = 1) [0..<100]"
  by (simp add: list_all_iff hundredZ_window) (simp add: levenshtein_def js_def)

lemma hundredZ_found:
  "fuzzySearchWithNormalization hundredZ (js ''a'') (1 / 2)
   = \<lparr>fm_index = 100, fm_distance = enat 0, fm_matchedText = js ''a''\<rparr>"
proof -
  let ?init = "\<lparr>fm_index = - 1, fm_distance = \<infinity>, fm_matchedText = []\<rparr>"
  have m: "maxDistanceOf (js ''a'') (1 / 2) = 0"
    by (simp add: eval_double js_def)
  have b: "scanBound hundredZ (js ''a'') = 100"
    by (simp add: scanBound_def hundredZ_def js_def)
  have far: "\<forall>k. 0 \<le> k \<and> k < 100 \<longrightarrow>
               (0::int) < int (levenshteinDistance (window hundredZ (js ''a'') k) (js ''a''))"
  proof (intro allI impI)
    fix k :: int
    assume k: "0 \<le> k \<and> k < 100"
    then obtain n where n: "k = int n" "n < 100"
      by (metis nat_less_iff nonneg_int_cases of_nat_numeral zless_nat_eq_int_zless nat_int)
    show "0 < int (levenshteinDistance (window hundredZ (js ''a'') k) (js ''a''))"
      using n by (simp add: hundredZ_window) (simp add: levenshteinDistance_def js_def)
  qed
  have skip: "fuzzyLoop hundredZ (js ''a'') 0 100 0 ?init
              = fuzzyLoop hundredZ (js ''a'') 0 100 100 ?init"
    using far by (intro fuzzyLoop_skip) simp_all
  have w: "window hundredZ (js ''a'') 100 = js ''a''"
    using hundredZ_window [of 100] by simp
  have d0: "levenshteinDistance (js ''a'') (js ''a'') = 0"
    by (simp add: levenshteinDistance_def js_def)
  have last: "fuzzyLoop hundredZ (js ''a'') 0 100 100 ?init
              = \<lparr>fm_index = 100, fm_distance = enat 0, fm_matchedText = js ''a''\<rparr>"
    by (subst fuzzyLoop.simps) (simp add: w d0 betterMatch_def zero_enat_def)
  show ?thesis
    by (simp add: fuzzySearchWithNormalization_def m b skip last)
qed

text \<open>The pattern abc in the page abd, with the double nearest to one third.\<close>

lemma searchPage_abd_abc:
  "searchPage exampleRuntime (highlightOf (js ''abc'') None)
       (DEFAULT_ANNOTATION_OPTIONS\<lparr>matchTolerance := oneThird\<rparr>) (js ''abc'') (js ''abc'')
       \<lparr>pt_pageNumber = 1, pt_text = js ''abd''\<rparr>
     = Some \<lparr>m_strategy = Fuzzy, m_pageNumber = 1, m_index = 0, m_matchedText = js ''abd''\<rparr>"
  by (simp add: eval_search eval_strings oneThird_def DEFAULT_ANNOTATION_OPTIONS_def one_enat_def)

text \<open>The pattern abd in the page abcd, with a tolerance of one half.\<close>

lemma fuzzy_abcd_abd:
  "fuzzySearchWithNormalization (js ''abcd'') (js ''abd'') (1 / 2)
     = \<lparr>fm_index = 0, fm_distance = enat 1, fm_matchedText = js ''abc''\<rparr>"
  by (simp add: eval_search eval_strings one_enat_def)

lemma searchPage_abcd_abd:
  "searchPage exampleRuntime (highlightOf (js ''abd'') None) halfTolerance (js ''abd'') (js ''abd'')
     \<lparr>pt_pageNumber = 1, pt_text = js ''abcd''\<rparr>
   = Some \<lparr>m_strategy = Fuzzy, m_pageNumber = 1, m_index = 0, m_matchedText = js ''abc''\<rparr>"
  by (simp add: eval_search eval_strings halfTolerance_def DEFAULT_ANNOTATION_OPTIONS_def one_enat_def)

lemma maxDistanceOf_examples:
  "maxDistanceOf (js ''abd'') (1 / 2) = 1"
  "maxDistanceOf (js ''xyz'') (1 / 10) = 0"
  "maxDistanceOf (js ''abd'') (matchTolerance halfTolerance) = 1"
  by (simp_all add: eval_double js_def halfTolerance_def)

lemma windows_abcd_xyz:
  "\<forall>k. 0 \<le> k \<and> k \<le> scanBound (js ''abcd'') (js ''xyz'') \<longrightarrow>
       maxDistanceOf (js ''xyz'') (1 / 10)
         < int (levenshtein (window (js ''abcd'') (js ''xyz'') k) (js ''xyz''))"
proof (intro allI impI)
  fix k :: int
  assume "0 \<le> k \<and> k \<le> scanBound (js ''abcd'') (js ''xyz'')"
  then have "k = 0 \<or> k = 1"
    by (auto simp: scanBound_def js_def)
  then show "maxDistanceOf (js ''xyz'') (1 / 10)
         < int (levenshtein (window (js ''abcd'') (js ''xyz'') k) (js ''xyz''))"
    unfolding maxDistanceOf_examples
    by (auto simp: window_def substring_def js_def levenshtein_def)
qed

subsection \<open>A callout with the default body, a colour out of range\<close>

text \<open>
  With the channels of the colour and the opacity within \<open>[0, 1]\<close> and a font that
  encodes the text \<open>Comment\<close>, no call of \<^verbatim>\<open>drawComment\<close> throws, and the page
  receives the box, the connector and one line of text.
\<close>

lemma drawComment_default_body:
  assumes "0 \<le> col_r color \<and> col_r color \<le> 1 \<and> 0 \<le> col_g color \<and> col_g color \<le> 1
           \<and> 0 \<le> col_b color \<and> col_b color \<le> 1"
    and "0 \<le> orElseReal (col_a color) (8 / 10) \<and> orElseReal (col_a color) (8 / 10) \<le> 1"
    and "canEncode rt (js ''Comment'')"
  shows "drawComment rt page position (js ''Comment'') color pageWidth pageHeight =
           (None,
            page\<lparr>pg_content := pg_content page @
              [Rectangle (pageWidth - 150) (orElseInt (tp_y position) (pageHeight - 100) - 60)
                 140 60 (col_r color, col_g color, col_b color)
                 (orElseReal (col_a color) (8 / 10)) (Some (black, 1)),
               Line (orElseInt (tp_x position) 50 + orElseInt (tp_width position) 100,
                     orElseInt (tp_y position) (pageHeight - 100) + 6)
                    (pageWidth - 150, orElseInt (tp_y position) (pageHeight - 100) - 30)
                    (1 / 2) black (1 / 2),
               Text (js ''Comment'') (pageWidth - 145)
                    (orElseInt (tp_y position) (pageHeight - 100) - 15) 8 black]\<rparr>)"
proof -
  have "js ''Comment'' \<noteq> []" by (simp add: js_def)
  then have "wrapWords rt [js ''Comment''] [] [] = Inr [js ''Comment'']"
    using assms(3) by (rule wrapWords_single)
  then have w: "wrapWords rt (splitSpace (js ''Comment'')) [] [] = Inr [js ''Comment'']"
    by (simp only: splitSpace_Comment)
  show ?thesis
    using assms
    by (simp add: drawComment_def Let_def w rgb_def drawRectangle_def drawLine_def drawText_def
        draw_def)
qed

text \<open>
  A channel of the colour outside \<open>[0, 1]\<close> makes \<^verbatim>\<open>rgb\<close> throw before anything is
  drawn: the result is a failure and the document is unchanged.
\<close>

lemma applyAnnotation_color_out_of_range:
  assumes "findTextPosition rt extractedText instruction opts = Some textPosition"
    and "getPage pdfDoc (tp_pageNumber textPosition - 1) = Inr page"
    and "ai_type instruction = COMMENT \<or> ai_type instruction = HIGHLIGHT
         \<or> ai_type instruction = UNDERLINE"
    and "colorOf instruction = Some color"
    and "col_r color < 0 \<or> 1 < col_r color \<or> col_g color < 0 \<or> 1 < col_g color
         \<or> col_b color < 0 \<or> 1 < col_b color"
  shows "applyAnnotation rt pdfDoc extractedText instruction opts =
           (failure instruction ColorOutOfRange, pdfDoc)"
proof -
  have r: "rgb (col_r color) (col_g color) (col_b color) = Inl ColorOutOfRange"
    using assms(5) by (auto simp: rgb_def)
  have same: "pdfDoc[nat (tp_pageNumber textPosition - 1) := page] = pdfDoc"
    using assms(2) by (auto simp: getPage_def split: if_splits)
  show ?thesis
    using assms(1,2,3,4) r same
    by (auto simp: applyAnnotation_def afterDrawing_def drawComment_def drawHighlight_def
        drawUnderline_def Let_def)
qed

lemma commentOn_color:
  "colorOf (commentOn t c) = Some \<lparr>col_r = 0, col_g = 1 / 2, col_b = 1, col_a = Some (8 / 10)\<rparr>"
  by (simp add: colorOf_def commentOn_def DEFAULT_COLORS_def)

lemma exampleRuntime_Comment: "canEncode exampleRuntime (js ''Comment'')"
  by (simp add: exampleRuntime_def js_def)

subsection \<open>A case-sensitive search of the page with the dotted capital I\<close>

lemma findMatch_dotted_caseSensitive:
  "findMatch dottedRuntime dottedPage (caseSensitiveHighlight (js ''xyz''))
     DEFAULT_ANNOTATION_OPTIONS
   = Some \<lparr>m_strategy = Exact, m_pageNumber = 1, m_index = 1, m_matchedText = js ''xyz''\<rparr>"
  by (simp add: eval_search eval_strings dottedPage_def dottedRuntime_def
      caseSensitiveHighlight_def DEFAULT_ANNOTATION_OPTIONS_def)

section \<open>The claims\<close>

subsection \<open>C1: the search over the pages with \<open>firstMatchOnly\<close>\<close>

text \<open>
  C1 says that with \<open>firstMatchOnly = true\<close> and no page restriction the pages are examined
  in ascending order until a strategy succeeds, so that a pattern absent from page 1 and
  present on pages 2 and 4 is reported on page 2.

  The code leaves the loop after the first page on which every strategy failed: with the
  default options, the pattern \<open>xyz\<close>, absent from page 1 and present verbatim on pages 2
  and 4, is not found at all. With \<open>firstMatchOnly = false\<close> the same search reports
  page 2.
\<close>

theorem findTextPosition_firstMatchOnly_stops_after_first_page:
  "findTextPosition exampleRuntime fourPages (highlightOf (js ''xyz'') None)
     DEFAULT_ANNOTATION_OPTIONS = None
   \<and> map_option tp_pageNumber
       (findTextPosition exampleRuntime fourPages (highlightOf (js ''xyz'') None)
          (DEFAULT_ANNOTATION_OPTIONS\<lparr>firstMatchOnly := False\<rparr>)) = Some 2"
  by (simp add: eval_search eval_strings fourPages_def DEFAULT_ANNOTATION_OPTIONS_def)

subsection \<open>C7: \<open>normalizeText\<close>\<close>

text \<open>
  C7 says that \<open>normalizeText\<close> is idempotent, collapses whitespace runs, maps curly
  quotes to ASCII quotes and dashes to the hyphen, and trims.

  The character classes of the two replacements for quotes hold the ASCII quotes
  themselves, so the curly quotes U+2018 and U+2019 around \<open>x\<close> come back unchanged,
  where the claim has \<open>x\<close> between two ASCII apostrophes. The function is
  idempotent, the whitespace of \<open>a\n\t  b\<close> is collapsed and the dashes are mapped,
  as the claim says.
\<close>

theorem normalizeText_keeps_curly_quotes:
  "normalizeText (normalizeText x) = normalizeText x
   \<and> normalizeText [0x2018, 0x78, 0x2019] = [0x2018, 0x78, 0x2019]
   \<and> normalizeText [0x2018, 0x78, 0x2019] \<noteq> [0x27, 0x78, 0x27]
   \<and> normalizeText [0x201C, 0x78, 0x201D] = [0x201C, 0x78, 0x201D]
   \<and> normalizeText [0x61, 0x0A, 0x09, 0x20, 0x20, 0x62] = js ''a b''
   \<and> normalizeText [0x61, 0x2013, 0x62, 0x2014, 0x63] = js ''a-b-c''"
  by (simp add: normalizeText_idempotent) (simp add: eval_strings)

subsection \<open>C8: the estimated rectangle\<close>

text \<open>
  C8 says that the rectangle is \<open>x = 50\<close>, \<open>width = 6 * length\<close>, \<open>height = 12\<close> and
  \<open>y = 700 - floor(charOffset / 100) * 20\<close> clamped to the page, so that \<open>y\<close> never falls
  below the bottom margin.

  Counterexample: at the character offset 4000 the estimate is \<open>y = -100\<close>, below the
  bottom edge of the page.
\<close>

theorem createTextPosition_y_below_page:
  "tp_y (createTextPosition 1 (js ''x'') 4000 (js ''x'')) = Some (- 100)"
  by (simp add: createTextPosition_def)

text \<open>
  C8 as amended: the rectangle is \<open>x = 50\<close>, \<open>width = 6 * length\<close>, \<open>height = 12\<close> and
  \<open>y = 700 - floor(charOffset / 100) * 20\<close> with no clamping: \<open>y\<close> is negative exactly
  from the offset 3600 on, and it falls below every bound.
\<close>

theorem createTextPosition_estimate:
  "tp_x (createTextPosition p t i m) = Some 50
   \<and> tp_width (createTextPosition p t i m) = Some (int (length m) * 6)
   \<and> tp_height (createTextPosition p t i m) = Some 12
   \<and> tp_y (createTextPosition p t i m) = Some (700 - (i div 100) * 20)
   \<and> ((\<exists>y. tp_y (createTextPosition p t i m) = Some y \<and> y < 0) = (3600 \<le> i))
   \<and> (\<exists>y. tp_y (createTextPosition p t (100 * (\<bar>b\<bar> + 36)) m) = Some y \<and> y < b)"
  by (simp add: createTextPosition_def) presburger

subsection \<open>C9: the default options\<close>

text \<open>
  C9 says that without options in the request the tolerance is 0.15, with
  \<open>caseSensitive\<close> false and \<open>firstMatchOnly\<close> true.

  The tolerance that \<^verbatim>\<open>DEFAULT_ANNOTATION_OPTIONS\<close> gives is 0.1; the other two defaults
  are as the claim says.
\<close>

theorem default_matchTolerance_is_one_tenth:
  "matchTolerance (mergeOptions None) = 1 / 10
   \<and> matchTolerance (mergeOptions None) \<noteq> 15 / 100
   \<and> firstMatchOnly (mergeOptions None)
   \<and> \<not> truthy (ai_caseSensitive (highlightOf t None))"
  by (simp add: mergeOptions_def DEFAULT_ANNOTATION_OPTIONS_def truthy_def highlightOf_def)

subsection \<open>C10: one result for every instruction\<close>

text \<open>
  C10: when the PDF loads and its text is extracted, \<open>annotatePDF\<close> returns a response
  with exactly one result for every instruction, in the order of the instructions; the
  result at index \<open>k\<close> is the result of \<open>applyAnnotation\<close> for instruction \<open>k\<close> on the
  document that the instructions before it left, whether these failed or not; the flag
  \<open>success\<close> is true if and only if some result succeeded; and the response carries the
  saved document (so a request whose instructions all fail has \<open>success = false\<close>, all
  its results and a buffer).
\<close>

theorem annotatePDF_one_result_per_instruction:
  "\<exists>resp. annotatePDF rt (Inr pdfDoc) (Inr extractedText) request = Inr resp
     \<and> length (results resp) = length (instructions request)
     \<and> map ar_instruction (results resp) = instructions request
     \<and> results resp =
         map (\<lambda>k. fst (applyAnnotation rt
                         (documentAfter rt pdfDoc extractedText (mergeOptions (options request))
                            (take k (instructions request)))
                         extractedText (instructions request ! k)
                         (mergeOptions (options request))))
           [0..<length (instructions request)]
     \<and> success resp = (\<exists>r. r \<in> set (results resp) \<and> ar_success r)
     \<and> pdfBuffer resp =
         Some (documentAfter rt pdfDoc extractedText (mergeOptions (options request))
                 (instructions request))"
proof -
  let ?opts = "mergeOptions (options request)"
  let ?is = "instructions request"
  obtain rs ws d where p: "processInstructions rt pdfDoc extractedText ?opts ?is = (rs, ws, d)"
    by (cases "processInstructions rt pdfDoc extractedText ?opts ?is")
  let ?resp = "\<lparr>success = length (filter ar_success rs) > 0, results = rs,
                 warnings = (if length ws > 0 then Some ws else None), pdfBuffer = Some d\<rparr>"
  have run: "annotatePDF rt (Inr pdfDoc) (Inr extractedText) request = Inr ?resp"
    using p by (simp add: annotatePDF_def Let_def)
  have instr: "map ar_instruction rs = ?is"
    using processInstructions_instructions [of rt pdfDoc extractedText ?opts ?is] p by simp
  then have "length (map ar_instruction rs) = length ?is" by simp
  then have len: "length rs = length ?is" by simp
  have each: "rs = map (\<lambda>k. fst (applyAnnotation rt
                         (documentAfter rt pdfDoc extractedText ?opts (take k ?is))
                         extractedText (?is ! k) ?opts)) [0..<length ?is]"
  proof (rule nth_equalityI)
    show "length rs = length (map (\<lambda>k. fst (applyAnnotation rt
                         (documentAfter rt pdfDoc extractedText ?opts (take k ?is))
                         extractedText (?is ! k) ?opts)) [0..<length ?is])"
      using len by simp
  next
    fix k assume "k < length rs"
    then have k: "k < length ?is" using len by simp
    have "rs ! k = fst (processInstructions rt pdfDoc extractedText ?opts ?is) ! k"
      using p by simp
    also have "\<dots> = fst (applyAnnotation rt
                         (documentAfter rt pdfDoc extractedText ?opts (take k ?is))
                         extractedText (?is ! k) ?opts)"
      using k by (rule processInstructions_nth)
    finally show "rs ! k = map (\<lambda>k. fst (applyAnnotation rt
                         (documentAfter rt pdfDoc extractedText ?opts (take k ?is))
                         extractedText (?is ! k) ?opts)) [0..<length ?is] ! k"
      using k by simp
  qed
  have succ: "(length (filter ar_success rs) > 0) = (\<exists>r. r \<in> set rs \<and> ar_success r)"
    by (auto simp: filter_empty_conv)
  have buf: "d = documentAfter rt pdfDoc extractedText ?opts ?is"
    using p by (simp add: documentAfter_def)
  show ?thesis
    using run len instr each succ buf by simp
qed

subsection \<open>C3: a page number outside the document\<close>

text \<open>
  C3 says that an instruction whose page number lies outside \<open>[1, totalPages]\<close> is
  reported as an InvalidSpec error, distinct from NotFound, without a crash and without
  failing the request.

  Counterexample: on a document of four pages, the error of an instruction for page 9
  is \<open>Text not found in document\<close>, the error of an instruction whose text is on no
  page; and an instruction for page 0 is searched on all pages and succeeds.
\<close>

theorem applyAnnotation_page_out_of_range_reports_not_found:
  "ar_error (fst (applyAnnotation exampleRuntime [letterPage] fourPages
                    (highlightOf (js ''xyz'') (Some 9)) DEFAULT_ANNOTATION_OPTIONS))
     = Some TextNotFound
   \<and> ar_error (fst (applyAnnotation exampleRuntime [letterPage] fourPages
                    (highlightOf (js ''qqq'') (Some 1)) DEFAULT_ANNOTATION_OPTIONS))
     = Some TextNotFound
   \<and> ar_success (fst (applyAnnotation exampleRuntime [letterPage] fourPages
                    (highlightOf (js ''abc'') (Some 0)) DEFAULT_ANNOTATION_OPTIONS))"
  by (simp add: eval_apply eval_search eval_strings fourPages_def DEFAULT_ANNOTATION_OPTIONS_def)

text \<open>
  C3 as amended: for an instruction whose page number lies outside \<open>[1, totalPages]\<close>
  and is not 0, on a document whose pages are numbered within \<open>[1, totalPages]\<close>, no
  page is searched: the result is the failure \<open>Text not found in document\<close>, the same
  as for a text that is absent, and the document is unchanged. Nothing is thrown, and by
  C10 the request goes on.
\<close>

theorem applyAnnotation_page_out_of_range_is_not_found:
  assumes "ai_pageNumber instruction = Some n"
    and "n < 1 \<or> totalPages extractedText < n"
    and "n \<noteq> 0"
    and "\<forall>p \<in> set (pages extractedText).
           1 \<le> pt_pageNumber p \<and> pt_pageNumber p \<le> totalPages extractedText"
  shows "applyAnnotation rt pdfDoc extractedText instruction opts =
           (failure instruction TextNotFound, pdfDoc)"
proof -
  have "filter (\<lambda>p. pt_pageNumber p = n) (pages extractedText) = []"
    using assms(2,4) by (auto simp: filter_empty_conv)
  then have "pagesToSearch extractedText instruction = []"
    using assms(1,3) by (simp add: pagesToSearch_def)
  then have "findTextPosition rt extractedText instruction opts = None"
    by (rule findTextPosition_no_pages)
  then show ?thesis
    by (simp add: applyAnnotation_def)
qed

theorem applyAnnotation_page_out_of_range_witness:
  "applyAnnotation exampleRuntime [letterPage] fourPages (highlightOf (js ''xyz'') (Some 9))
     DEFAULT_ANNOTATION_OPTIONS =
   (failure (highlightOf (js ''xyz'') (Some 9)) TextNotFound, [letterPage])"
proof -
  have 1: "ai_pageNumber (highlightOf (js ''xyz'') (Some 9)) = Some 9"
    by (simp add: highlightOf_def)
  have 2: "(9::int) < 1 \<or> totalPages fourPages < 9"
    by (simp add: fourPages_def)
  have 3: "(9::int) \<noteq> 0" by simp
  show ?thesis
    using applyAnnotation_page_out_of_range_is_not_found [OF 1 2 3 fourPages_numbered] .
qed

subsection \<open>C6: a match lies within the normalized text of its page\<close>

text \<open>
  C6 says that for every match, by whichever strategy, \<open>0 \<le> charOffset\<close> and
  \<open>charOffset + length matchedSubstring \<le> length normalizedText\<close>, where
  \<open>normalizedText\<close> is the normalized text of the page.

  Counterexample: unless the instruction is case-sensitive the code lowers the case of
  the page text before it normalizes it, and \<^verbatim>\<open>toLowerCase\<close> turns U+0130 into two code
  units. On the page U+0130 x y z, whose normalized text has length 4, the pattern xyz
  is matched at offset 2, and \<open>2 + 3 = 5\<close>.
\<close>

theorem findMatch_beyond_normalized_page_text:
  "findMatch dottedRuntime dottedPage (highlightOf (js ''xyz'') None) DEFAULT_ANNOTATION_OPTIONS
     = Some \<lparr>m_strategy = Exact, m_pageNumber = 1, m_index = 2, m_matchedText = js ''xyz''\<rparr>
   \<and> length (normalizeText [0x130, 0x78, 0x79, 0x7A]) = 4
   \<and> pages dottedPage = [\<lparr>pt_pageNumber = 1, pt_text = [0x130, 0x78, 0x79, 0x7A]\<rparr>]"
  by (simp add: eval_search eval_strings dottedPage_def dottedRuntime_def dottedToLowerCase_def
      DEFAULT_ANNOTATION_OPTIONS_def)

text \<open>
  C6 as amended: for every match that \<open>findTextPosition\<close> reports, by whichever strategy,
  there is a page among those searched that has the page number reported, and
  \<open>0 \<le> charOffset\<close> and \<open>charOffset + length matchedSubstring\<close> is at most the length of
  the normalized text of the case-folded text of the page, the text that the code
  searches; for a case-sensitive instruction that is the normalized text of the page.
  The raw fallback never produces the match: a text that occurs in the raw page occurs,
  normalized, in the normalized page, where the Exact strategy finds it first.
\<close>

theorem findMatch_within_normalized_page:
  assumes "findMatch rt extractedText instruction opts = Some m"
  shows "\<exists>page. page \<in> set (pages extractedText)
           \<and> page \<in> set (pagesToSearch extractedText instruction)
           \<and> pt_pageNumber page = m_pageNumber m
           \<and> 0 \<le> m_index m
           \<and> m_index m + int (length (m_matchedText m))
               \<le> int (length (normalizeText (foldCase rt instruction (pt_text page))))
           \<and> (ai_caseSensitive instruction = Some True \<longrightarrow>
                m_index m + int (length (m_matchedText m))
                  \<le> int (length (normalizeText (pt_text page))))
           \<and> m_strategy m \<noteq> RawFallback
           \<and> findTextPosition rt extractedText instruction opts
               = Some (createTextPosition (pt_pageNumber page) (ai_text instruction)
                         (m_index m) (m_matchedText m))"
proof -
  let ?st = "foldCase rt instruction (ai_text instruction)"
  have "searchPages rt instruction opts ?st (normalizeText ?st)
          (pagesToSearch extractedText instruction) = Some m"
    using assms by (simp add: findMatch_def Let_def)
  then obtain page where p: "page \<in> set (pagesToSearch extractedText instruction)"
      "searchPage rt instruction opts ?st (normalizeText ?st) page = Some m"
    using searchPages_page by blast
  have "set (pagesToSearch extractedText instruction) \<subseteq> set (pages extractedText)"
    by (auto simp: pagesToSearch_def split: option.splits)
  then have "page \<in> set (pages extractedText)" using p(1) by blast
  moreover have "findTextPosition rt extractedText instruction opts
               = Some (createTextPosition (m_pageNumber m) (ai_text instruction)
                         (m_index m) (m_matchedText m))"
    using assms by (simp add: findTextPosition_def)
  moreover have "ai_caseSensitive instruction = Some True \<Longrightarrow>
      foldCase rt instruction (pt_text page) = pt_text page"
    by (simp add: foldCase_def truthy_def)
  ultimately show ?thesis
    using p(1) searchPage_within [OF p(2)] by auto
qed

theorem findMatch_within_normalized_page_witness:
  "\<exists>page. page \<in> set (pages dottedPage)
     \<and> page \<in> set (pagesToSearch dottedPage (caseSensitiveHighlight (js ''xyz'')))
     \<and> pt_pageNumber page = 1
     \<and> ai_caseSensitive (caseSensitiveHighlight (js ''xyz'')) = Some True
     \<and> (1::int) + int (length (js ''xyz'')) \<le> int (length (normalizeText (pt_text page)))
     \<and> findTextPosition dottedRuntime dottedPage (caseSensitiveHighlight (js ''xyz''))
           DEFAULT_ANNOTATION_OPTIONS
         = Some (createTextPosition (pt_pageNumber page) (js ''xyz'') 1 (js ''xyz''))"
proof -
  have c: "ai_caseSensitive (caseSensitiveHighlight (js ''xyz'')) = Some True"
    by (simp add: caseSensitiveHighlight_def)
  have t: "ai_text (caseSensitiveHighlight (js ''xyz'')) = js ''xyz''"
    by (simp add: caseSensitiveHighlight_def highlightOf_def)
  show ?thesis
    using findMatch_within_normalized_page [OF findMatch_dotted_caseSensitive] c t
    by auto
qed

subsection \<open>C2: an empty pattern, a pattern longer than every page\<close>

text \<open>
  C2 says that an instruction whose pattern is empty, or longer than the text of every
  page, is NotFound: no candidate, a NotFound failure, no exception and no fabricated
  match.

  Counterexample: with the default options the empty pattern is found on page 1 at
  offset 0, the result is a success and a highlight is drawn; and the pattern
  \<open>xyz\<close> between two spaces on either side, longer than the text of every page, is
  found on page 2.
\<close>

theorem findTextPosition_empty_pattern_matches:
  "findTextPosition exampleRuntime fourPages (highlightOf [] None) DEFAULT_ANNOTATION_OPTIONS
     = Some (createTextPosition 1 [] 0 [])
   \<and> ar_success (fst (applyAnnotation exampleRuntime [letterPage] fourPages (highlightOf [] None)
                        DEFAULT_ANNOTATION_OPTIONS))
   \<and> pg_content (hd (snd (applyAnnotation exampleRuntime [letterPage] fourPages
                            (highlightOf [] None) DEFAULT_ANNOTATION_OPTIONS)))
       = [Rectangle 48 698 104 16 (1, 1, 0) (3 / 10) None]
   \<and> map_option tp_pageNumber
       (findTextPosition exampleRuntime fourPages (highlightOf (js ''  xyz  '') (Some 2))
          DEFAULT_ANNOTATION_OPTIONS) = Some 2"
  by (simp add: eval_apply eval_search eval_strings fourPages_def DEFAULT_ANNOTATION_OPTIONS_def)

text \<open>
  C2 as amended: a pattern whose normalized text is empty is matched by the Exact
  strategy at offset 0 of the first page searched, with an empty matched text, so it is
  NotFound only when no page is searched. A pattern whose normalized text is longer than
  the normalized text of every page searched can be matched only through its first 50 or
  30 characters (Partial50, Partial30); when it has at most 30 characters no strategy
  matches: there is no candidate, the result is the failure
  \<open>Text not found in document\<close>, the document is unchanged and nothing is thrown.
\<close>

theorem findTextPosition_degenerate_pattern:
  "(normalizeText (foldCase rt instruction (ai_text instruction)) = []
      \<and> pagesToSearch extractedText instruction = page # rest \<longrightarrow>
      findMatch rt extractedText instruction opts
        = Some \<lparr>m_strategy = Exact, m_pageNumber = pt_pageNumber page, m_index = 0,
                m_matchedText = []\<rparr>)
   \<and> ((\<forall>p\<in>set (pagesToSearch extractedText instruction).
          length (normalizeText (foldCase rt instruction (pt_text p)))
            < length (normalizeText (foldCase rt instruction (ai_text instruction))))
       \<and> findMatch rt extractedText instruction opts = Some m \<longrightarrow>
       m_strategy m = Partial50 \<or> m_strategy m = Partial30)
   \<and> ((\<forall>p\<in>set (pagesToSearch extractedText instruction).
          length (normalizeText (foldCase rt instruction (pt_text p)))
            < length (normalizeText (foldCase rt instruction (ai_text instruction))))
       \<and> length (normalizeText (foldCase rt instruction (ai_text instruction))) \<le> 30 \<longrightarrow>
       findTextPosition rt extractedText instruction opts = None
       \<and> applyAnnotation rt pdfDoc extractedText instruction opts
           = (failure instruction TextNotFound, pdfDoc))"
proof -
  let ?st = "foldCase rt instruction (ai_text instruction)"
  let ?ps = "pagesToSearch extractedText instruction"
  have a: "normalizeText ?st = [] \<and> ?ps = page # rest \<longrightarrow>
      findMatch rt extractedText instruction opts
        = Some \<lparr>m_strategy = Exact, m_pageNumber = pt_pageNumber page, m_index = 0,
                m_matchedText = []\<rparr>"
    by (simp add: findMatch_def Let_def searchPage_empty_pattern)
  have b: "(\<forall>p\<in>set ?ps. length (normalizeText (foldCase rt instruction (pt_text p)))
                          < length (normalizeText ?st))
       \<and> findMatch rt extractedText instruction opts = Some m \<longrightarrow>
       m_strategy m = Partial50 \<or> m_strategy m = Partial30"
  proof
    assume h: "(\<forall>p\<in>set ?ps. length (normalizeText (foldCase rt instruction (pt_text p)))
                          < length (normalizeText ?st))
       \<and> findMatch rt extractedText instruction opts = Some m"
    then have "searchPages rt instruction opts ?st (normalizeText ?st) ?ps = Some m"
      by (simp add: findMatch_def Let_def)
    then obtain p where p: "p \<in> set ?ps"
        "searchPage rt instruction opts ?st (normalizeText ?st) p = Some m"
      using searchPages_page by blast
    then have "length (normalizeText (foldCase rt instruction (pt_text p)))
                 < length (normalizeText ?st)"
      using h by blast
    then show "m_strategy m = Partial50 \<or> m_strategy m = Partial30"
      using searchPage_pattern_too_long [of rt instruction p ?st opts] p(2) by blast
  qed
  have c: "(\<forall>p\<in>set ?ps. length (normalizeText (foldCase rt instruction (pt_text p)))
                          < length (normalizeText ?st))
       \<and> length (normalizeText ?st) \<le> 30 \<longrightarrow>
       findTextPosition rt extractedText instruction opts = None
       \<and> applyAnnotation rt pdfDoc extractedText instruction opts
           = (failure instruction TextNotFound, pdfDoc)"
  proof
    assume h: "(\<forall>p\<in>set ?ps. length (normalizeText (foldCase rt instruction (pt_text p)))
                          < length (normalizeText ?st))
       \<and> length (normalizeText ?st) \<le> 30"
    have "\<forall>p\<in>set ?ps. searchPage rt instruction opts ?st (normalizeText ?st) p = None"
    proof
      fix p assume "p \<in> set ?ps"
      then have "length (normalizeText (foldCase rt instruction (pt_text p)))
                 < length (normalizeText ?st)"
        using h by blast
      then show "searchPage rt instruction opts ?st (normalizeText ?st) p = None"
        using searchPage_pattern_too_long [of rt instruction p ?st opts] h by blast
    qed
    then have "searchPages rt instruction opts ?st (normalizeText ?st) ?ps = None"
      by (rule searchPages_none)
    then have "findTextPosition rt extractedText instruction opts = None"
      by (simp add: findTextPosition_def findMatch_def Let_def)
    then show "findTextPosition rt extractedText instruction opts = None
       \<and> applyAnnotation rt pdfDoc extractedText instruction opts
           = (failure instruction TextNotFound, pdfDoc)"
      by (simp add: applyAnnotation_def)
  qed
  show ?thesis using a b c by blast
qed

theorem findTextPosition_degenerate_pattern_witness:
  "findMatch exampleRuntime fourPages (highlightOf [] None) DEFAULT_ANNOTATION_OPTIONS
     = Some \<lparr>m_strategy = Exact, m_pageNumber = 1, m_index = 0, m_matchedText = []\<rparr>
   \<and> (m_strategy \<lparr>m_strategy = Partial30, m_pageNumber = 1, m_index = 0,
                   m_matchedText = js ''abcdefghijklmnopqrstuvwxyz0123''\<rparr> = Partial50
      \<or> m_strategy \<lparr>m_strategy = Partial30, m_pageNumber = 1, m_index = 0,
                     m_matchedText = js ''abcdefghijklmnopqrstuvwxyz0123''\<rparr> = Partial30)
   \<and> findTextPosition exampleRuntime fourPages (highlightOf (js ''abcdef'') None)
       DEFAULT_ANNOTATION_OPTIONS = None
   \<and> applyAnnotation exampleRuntime [letterPage] fourPages (highlightOf (js ''abcdef'') None)
       DEFAULT_ANNOTATION_OPTIONS
       = (failure (highlightOf (js ''abcdef'') None) TextNotFound, [letterPage])"
proof -
  have 1: "findMatch exampleRuntime fourPages (highlightOf [] None) DEFAULT_ANNOTATION_OPTIONS
     = Some \<lparr>m_strategy = Exact, m_pageNumber = 1, m_index = 0, m_matchedText = []\<rparr>"
    using findTextPosition_degenerate_pattern
            [of exampleRuntime "highlightOf [] None" fourPages
                "\<lparr>pt_pageNumber = 1, pt_text = js ''abc''\<rparr>" "tl (pages fourPages)"
                DEFAULT_ANNOTATION_OPTIONS]
          empty_pattern_pages
    by simp
  have 2: "m_strategy \<lparr>m_strategy = Partial30, m_pageNumber = 1, m_index = 0,
                   m_matchedText = js ''abcdefghijklmnopqrstuvwxyz0123''\<rparr> = Partial50
      \<or> m_strategy \<lparr>m_strategy = Partial30, m_pageNumber = 1, m_index = 0,
                     m_matchedText = js ''abcdefghijklmnopqrstuvwxyz0123''\<rparr> = Partial30"
    using findTextPosition_degenerate_pattern
            [of exampleRuntime "highlightOf (js ''abcdefghijklmnopqrstuvwxyz012345'') None"
                alphabetPage _ _ DEFAULT_ANNOTATION_OPTIONS
                "\<lparr>m_strategy = Partial30, m_pageNumber = 1, m_index = 0,
                   m_matchedText = js ''abcdefghijklmnopqrstuvwxyz0123''\<rparr>"]
          alphabet_partial
    by blast
  have 3: "findTextPosition exampleRuntime fourPages (highlightOf (js ''abcdef'') None)
       DEFAULT_ANNOTATION_OPTIONS = None
   \<and> applyAnnotation exampleRuntime [letterPage] fourPages (highlightOf (js ''abcdef'') None)
       DEFAULT_ANNOTATION_OPTIONS
       = (failure (highlightOf (js ''abcdef'') None) TextNotFound, [letterPage])"
    using findTextPosition_degenerate_pattern
            [of exampleRuntime "highlightOf (js ''abcdef'') None" fourPages _ _
                DEFAULT_ANNOTATION_OPTIONS _ "[letterPage]"]
          abcdef_too_long
    by blast
  show ?thesis using 1 2 3 by blast
qed

subsection \<open>C4: a comment without a body\<close>

text \<open>
  C4 says that a Comment instruction with an empty or missing comment body is reported
  as an error and that no default text is drawn in its place.

  Counterexample: a Comment instruction without a body, for a text on page 1, succeeds,
  and the callout drawn on the page holds the text \<open>Comment\<close>.
\<close>

theorem applyAnnotation_comment_without_body_succeeds:
  "applyAnnotation exampleRuntime [letterPage] fourPages (commentOn (js ''abc'') None)
     DEFAULT_ANNOTATION_OPTIONS
   = (applied (commentOn (js ''abc'') None) (createTextPosition 1 (js ''abc'') 0 (js ''abc'')),
      [\<lparr>pg_width = 612, pg_height = 792,
        pg_content =
          [Rectangle 462 640 140 60 (0, 1 / 2, 1) (8 / 10) (Some ((0, 0, 0), 1)),
           Line (68, 706) (462, 670) (1 / 2) (0, 0, 0) (1 / 2),
           Text (js ''Comment'') 467 685 8 (0, 0, 0)]\<rparr>])"
  by (simp add: eval_apply eval_search eval_strings fourPages_def DEFAULT_ANNOTATION_OPTIONS_def)

text \<open>
  C4 as amended: for a Comment instruction with an empty or missing comment body whose
  text is found on a page of the document, whose colour has its three channels and its
  opacity (0.8 when the colour gives none or 0) within \<open>[0, 1]\<close>, and with a font that encodes
  the text \<open>Comment\<close>, the result is a success, and the callout is drawn with the default
  body \<open>Comment\<close>: the page receives the box, the connector and the one line of text
  \<open>Comment\<close>. Outside these conditions on the colour and the font a call of the drawing
  throws and the result is a failure (\<open>applyAnnotation_color_out_of_range\<close>).
\<close>

theorem applyAnnotation_comment_default_body:
  assumes "ai_type instruction = COMMENT"
    and "ai_comment instruction = None \<or> ai_comment instruction = Some []"
    and "findTextPosition rt extractedText instruction opts = Some textPosition"
    and "getPage pdfDoc (tp_pageNumber textPosition - 1) = Inr page"
    and "colorOf instruction = Some color"
    and "0 \<le> col_r color \<and> col_r color \<le> 1 \<and> 0 \<le> col_g color \<and> col_g color \<le> 1
         \<and> 0 \<le> col_b color \<and> col_b color \<le> 1"
    and "0 \<le> orElseReal (col_a color) (8 / 10) \<and> orElseReal (col_a color) (8 / 10) \<le> 1"
    and "canEncode rt (js ''Comment'')"
  shows "applyAnnotation rt pdfDoc extractedText instruction opts =
           (applied instruction textPosition,
            pdfDoc[nat (tp_pageNumber textPosition - 1) :=
              page\<lparr>pg_content := pg_content page @
                [Rectangle (pg_width page - 150)
                   (orElseInt (tp_y textPosition) (pg_height page - 100) - 60)
                   140 60 (col_r color, col_g color, col_b color)
                   (orElseReal (col_a color) (8 / 10)) (Some (black, 1)),
                 Line (orElseInt (tp_x textPosition) 50 + orElseInt (tp_width textPosition) 100,
                       orElseInt (tp_y textPosition) (pg_height page - 100) + 6)
                      (pg_width page - 150,
                       orElseInt (tp_y textPosition) (pg_height page - 100) - 30)
                      (1 / 2) black (1 / 2),
                 Text (js ''Comment'') (pg_width page - 145)
                      (orElseInt (tp_y textPosition) (pg_height page - 100) - 15) 8 black]\<rparr>])"
proof -
  have c: "commentOf instruction = js ''Comment''"
    using assms(2) by (auto simp: commentOf_def)
  show ?thesis
    using assms(1,3,4,5) c drawComment_default_body [OF assms(6,7,8)]
    by (simp add: applyAnnotation_def afterDrawing_def Let_def)
qed

theorem applyAnnotation_comment_default_body_witness:
  "applyAnnotation exampleRuntime [letterPage] fourPages (commentOn (js ''abc'') (Some []))
     DEFAULT_ANNOTATION_OPTIONS =
   (applied (commentOn (js ''abc'') (Some []))
      (createTextPosition 1 (js ''abc'') 0 (js ''abc'')),
    [\<lparr>pg_width = 612, pg_height = 792,
      pg_content =
        [Rectangle 462 640 140 60 (0, 1 / 2, 1) (8 / 10) (Some (black, 1)),
         Line (68, 706) (462, 670) (1 / 2) black (1 / 2),
         Text (js ''Comment'') 467 685 8 black]\<rparr>])"
proof -
  let ?color = "\<lparr>col_r = 0, col_g = 1 / 2, col_b = 1, col_a = Some (8 / 10)\<rparr>"
  have 1: "ai_type (commentOn (js ''abc'') (Some [])) = COMMENT"
    by (simp add: commentOn_def)
  have 2: "ai_comment (commentOn (js ''abc'') (Some [])) = None
           \<or> ai_comment (commentOn (js ''abc'') (Some [])) = Some []"
    by (simp add: commentOn_def)
  have 4: "getPage [letterPage] (tp_pageNumber (createTextPosition 1 (js ''abc'') 0 (js ''abc'')) - 1)
           = Inr letterPage"
    by (simp add: getPage_def createTextPosition_def)
  have 6: "0 \<le> col_r ?color \<and> col_r ?color \<le> 1 \<and> 0 \<le> col_g ?color \<and> col_g ?color \<le> 1
         \<and> 0 \<le> col_b ?color \<and> col_b ?color \<le> 1"
    by simp
  have 7: "0 \<le> orElseReal (col_a ?color) (8 / 10) \<and> orElseReal (col_a ?color) (8 / 10) \<le> 1"
    by (simp add: orElseReal_def)
  show ?thesis
    using applyAnnotation_comment_default_body
            [OF 1 2 findTextPosition_abc 4 commentOn_color 6 7 exampleRuntime_Comment]
    by (simp add: letterPage_def createTextPosition_def orElseInt_def orElseReal_def js_def)
qed

subsection \<open>C5: the candidates of the fuzzy search\<close>

text \<open>
  C5 says that the edit distance of a fuzzy candidate is at most
  \<open>\<lfloor>length pattern * toleranceFraction\<rfloor>\<close>, and that the search returns no candidate
  whenever every window within the scan bound, which the specification gives as
  \<open>min (length text) (100 * length pattern)\<close> windows, exceeds that bound.

  Counterexample: the code takes the floor of the product that it computes in double
  precision. With the double nearest to one third as the tolerance, itself below one
  third, the product with 3 rounds to 1: the pattern abc is matched in the text abd at
  distance 1, and the floor of the exact product is 0. And the scan visits the offsets
  \<open>0\<close> to the bound inclusive, one window more than the cap: in the text of a hundred
  letters z and one a, the pattern a with the bound 0 is found at offset 100, in the
  window after the first hundred, which all have distance 1.
\<close>

theorem fuzzySearchWithNormalization_beyond_exact_floor_and_cap:
  "toDouble oneThird = oneThird
   \<and> fuzzySearchWithNormalization (js ''abd'') (js ''abc'') oneThird
       = \<lparr>fm_index = 0, fm_distance = enat 1, fm_matchedText = js ''abd''\<rparr>
   \<and> searchPage exampleRuntime (highlightOf (js ''abc'') None)
         (DEFAULT_ANNOTATION_OPTIONS\<lparr>matchTolerance := oneThird\<rparr>) (js ''abc'') (js ''abc'')
         \<lparr>pt_pageNumber = 1, pt_text = js ''abd''\<rparr>
       = Some \<lparr>m_strategy = Fuzzy, m_pageNumber = 1, m_index = 0, m_matchedText = js ''abd''\<rparr>
   \<and> levenshtein (js ''abd'') (js ''abc'') = 1
   \<and> \<lfloor>real (length (js ''abc'')) * oneThird\<rfloor> = 0
   \<and> fm_index (fuzzySearchWithNormalization hundredZ (js ''a'') (1 / 2)) = 100
   \<and> \<lfloor>real (length (js ''a'')) * (1 / 2)\<rfloor> = 0
   \<and> min (length hundredZ) (length (js ''a'') * 100) = 100
   \<and> list_all (\<lambda>k. levenshtein (window hundredZ (js ''a'') (int k)) (js ''a'') = 1) [0..<100]"
proof -
  have 1: "toDouble oneThird = oneThird"
    by (simp add: oneThird_def eval_double)
  have 2: "fuzzySearchWithNormalization (js ''abd'') (js ''abc'') oneThird
       = \<lparr>fm_index = 0, fm_distance = enat 1, fm_matchedText = js ''abd''\<rparr>"
    by (simp add: eval_search eval_strings oneThird_def one_enat_def)
  have 3: "levenshtein (js ''abd'') (js ''abc'') = 1"
    by (simp add: levenshtein_def js_def)
  have 4: "\<lfloor>real (length (js ''abc'')) * oneThird\<rfloor> = 0"
    by (simp add: oneThird_def js_def)
  have 5: "fm_index (fuzzySearchWithNormalization hundredZ (js ''a'') (1 / 2)) = 100"
    by (simp add: hundredZ_found)
  have 6: "\<lfloor>real (length (js ''a'')) * (1 / 2)\<rfloor> = 0"
    by (simp add: js_def)
  have 7: "min (length hundredZ) (length (js ''a'') * 100) = 100"
    by (simp add: hundredZ_def js_def)
  show ?thesis
    using 1 2 3 4 5 6 7 hundredZ_first_windows searchPage_abd_abc by simp
qed

text \<open>
  C5 as amended: whenever \<open>fuzzySearchWithNormalization\<close> reports a candidate, its index
  lies between \<open>0\<close> and the scan bound, its matched text is the window at that index, and
  its distance is the Levenshtein distance (unit-cost insertion, deletion, substitution)
  between that window and the pattern, at most \<open>maxDistanceOf pattern tolerance\<close>, the
  floor of the double-precision product of the length of the pattern and the tolerance;
  the search returns index \<open>-1\<close> whenever every window at an offset from \<open>0\<close> to
  \<open>min (length text - length pattern) (min (length text) (100 * length pattern))\<close>
  inclusive has a distance above that bound; and a match that \<open>searchPage\<close> reports by
  the Fuzzy strategy is within that bound of the normalized pattern.
\<close>

theorem fuzzySearchWithNormalization_within_double_tolerance:
  "(fm_index (fuzzySearchWithNormalization text pattern tolerance) \<noteq> - 1 \<longrightarrow>
      0 \<le> fm_index (fuzzySearchWithNormalization text pattern tolerance)
      \<and> fm_index (fuzzySearchWithNormalization text pattern tolerance) \<le> scanBound text pattern
      \<and> fm_matchedText (fuzzySearchWithNormalization text pattern tolerance)
          = window text pattern (fm_index (fuzzySearchWithNormalization text pattern tolerance))
      \<and> fm_distance (fuzzySearchWithNormalization text pattern tolerance)
          = enat (levenshtein (fm_matchedText (fuzzySearchWithNormalization text pattern tolerance))
                    pattern)
      \<and> int (levenshtein (fm_matchedText (fuzzySearchWithNormalization text pattern tolerance))
                pattern)
          \<le> maxDistanceOf pattern tolerance)
   \<and> ((\<forall>k. 0 \<le> k \<and> k \<le> scanBound text pattern \<longrightarrow>
          maxDistanceOf pattern tolerance < int (levenshtein (window text pattern k) pattern))
        \<longrightarrow> fm_index (fuzzySearchWithNormalization text pattern tolerance) = - 1)
   \<and> (searchPage rt instruction opts searchText normalizedSearchText page = Some m
        \<and> m_strategy m = Fuzzy \<longrightarrow>
        int (levenshtein (m_matchedText m) normalizedSearchText)
          \<le> maxDistanceOf normalizedSearchText (matchTolerance opts))
   \<and> maxDistanceOf pattern tolerance = \<lfloor>toDouble (real (length pattern) * toDouble tolerance)\<rfloor>
   \<and> scanBound text pattern
       = min (int (length text) - int (length pattern))
           (min (int (length text)) (int (length pattern) * 100))"
proof -
  let ?init = "\<lparr>fm_index = - 1, fm_distance = \<infinity>, fm_matchedText = []\<rparr>"
  have inv: "(fm_index (fuzzySearchWithNormalization t p tol) = - 1
     \<and> fm_distance (fuzzySearchWithNormalization t p tol) = \<infinity>) \<or>
     (0 \<le> fm_index (fuzzySearchWithNormalization t p tol)
      \<and> fm_index (fuzzySearchWithNormalization t p tol) \<le> scanBound t p
      \<and> fm_matchedText (fuzzySearchWithNormalization t p tol)
          = window t p (fm_index (fuzzySearchWithNormalization t p tol))
      \<and> fm_distance (fuzzySearchWithNormalization t p tol)
          = enat (levenshteinDistance (fm_matchedText (fuzzySearchWithNormalization t p tol)) p)
      \<and> int (levenshteinDistance (fm_matchedText (fuzzySearchWithNormalization t p tol)) p)
          \<le> maxDistanceOf p tol)" for t p tol
    unfolding fuzzySearchWithNormalization_def
    by (rule fuzzyLoop_candidate) simp_all
  have a: "fm_index (fuzzySearchWithNormalization text pattern tolerance) \<noteq> - 1 \<longrightarrow>
      0 \<le> fm_index (fuzzySearchWithNormalization text pattern tolerance)
      \<and> fm_index (fuzzySearchWithNormalization text pattern tolerance) \<le> scanBound text pattern
      \<and> fm_matchedText (fuzzySearchWithNormalization text pattern tolerance)
          = window text pattern (fm_index (fuzzySearchWithNormalization text pattern tolerance))
      \<and> fm_distance (fuzzySearchWithNormalization text pattern tolerance)
          = enat (levenshtein (fm_matchedText (fuzzySearchWithNormalization text pattern tolerance))
                    pattern)
      \<and> int (levenshtein (fm_matchedText (fuzzySearchWithNormalization text pattern tolerance))
                pattern)
          \<le> maxDistanceOf pattern tolerance"
    using inv [of "text" pattern tolerance] by (auto simp: levenshteinDistance_levenshtein)
  have b: "(\<forall>k. 0 \<le> k \<and> k \<le> scanBound text pattern \<longrightarrow>
          maxDistanceOf pattern tolerance < int (levenshtein (window text pattern k) pattern))
        \<longrightarrow> fm_index (fuzzySearchWithNormalization text pattern tolerance) = - 1"
  proof
    assume "\<forall>k. 0 \<le> k \<and> k \<le> scanBound text pattern \<longrightarrow>
          maxDistanceOf pattern tolerance < int (levenshtein (window text pattern k) pattern)"
    then have "\<forall>k. 0 \<le> k \<and> k \<le> scanBound text pattern \<longrightarrow>
          maxDistanceOf pattern tolerance
            < int (levenshteinDistance (window text pattern k) pattern)"
      by (simp add: levenshteinDistance_levenshtein)
    then have "fuzzyLoop text pattern (maxDistanceOf pattern tolerance)
                 (scanBound text pattern) 0 ?init = ?init"
      by (rule fuzzyLoop_no_candidate)
    then show "fm_index (fuzzySearchWithNormalization text pattern tolerance) = - 1"
      by (simp add: fuzzySearchWithNormalization_def)
  qed
  have c: "searchPage rt instruction opts searchText normalizedSearchText page = Some m
        \<and> m_strategy m = Fuzzy \<longrightarrow>
        int (levenshtein (m_matchedText m) normalizedSearchText)
          \<le> maxDistanceOf normalizedSearchText (matchTolerance opts)"
  proof
    assume h: "searchPage rt instruction opts searchText normalizedSearchText page = Some m
        \<and> m_strategy m = Fuzzy"
    let ?f = "fuzzySearchWithNormalization
                (normalizeText (foldCase rt instruction (pt_text page))) normalizedSearchText
                (matchTolerance opts)"
    from h have "fm_index ?f \<noteq> - 1 \<and> m_matchedText m = fm_matchedText ?f"
      by (auto simp: searchPage_def Let_def split: if_splits)
    then show "int (levenshtein (m_matchedText m) normalizedSearchText)
          \<le> maxDistanceOf normalizedSearchText (matchTolerance opts)"
      using inv [of "normalizeText (foldCase rt instruction (pt_text page))" normalizedSearchText
                    "matchTolerance opts"]
      by (auto simp: levenshteinDistance_levenshtein)
  qed
  have d: "maxDistanceOf pattern tolerance = \<lfloor>toDouble (real (length pattern) * toDouble tolerance)\<rfloor>"
    by (simp add: maxDistanceOf_def)
  have e: "scanBound text pattern
       = min (int (length text) - int (length pattern))
           (min (int (length text)) (int (length pattern) * 100))"
    by (simp add: scanBound_def)
  show ?thesis using a b c d e by blast
qed

theorem fuzzySearchWithNormalization_within_double_tolerance_witness:
  "fm_index (fuzzySearchWithNormalization (js ''abcd'') (js ''abd'') (1 / 2)) = 0
   \<and> fm_matchedText (fuzzySearchWithNormalization (js ''abcd'') (js ''abd'') (1 / 2)) = js ''abc''
   \<and> int (levenshtein (js ''abc'') (js ''abd'')) \<le> maxDistanceOf (js ''abd'') (1 / 2)
   \<and> maxDistanceOf (js ''abd'') (1 / 2) = 1
   \<and> fm_index (fuzzySearchWithNormalization (js ''abcd'') (js ''xyz'') (1 / 10)) = - 1
   \<and> int (levenshtein (js ''abc'') (js ''abd''))
       \<le> maxDistanceOf (js ''abd'') (matchTolerance halfTolerance)"
proof -
  have found: "fm_index (fuzzySearchWithNormalization (js ''abcd'') (js ''abd'') (1 / 2)) \<noteq> - 1"
    by (simp add: fuzzy_abcd_abd)
  have 1: "int (levenshtein (fm_matchedText
                  (fuzzySearchWithNormalization (js ''abcd'') (js ''abd'') (1 / 2))) (js ''abd''))
           \<le> maxDistanceOf (js ''abd'') (1 / 2)"
    using fuzzySearchWithNormalization_within_double_tolerance
            [of "js ''abcd''" "js ''abd''" "1 / 2"] found
    by blast
  have 2: "fm_index (fuzzySearchWithNormalization (js ''abcd'') (js ''xyz'') (1 / 10)) = - 1"
    using fuzzySearchWithNormalization_within_double_tolerance
            [of "js ''abcd''" "js ''xyz''" "1 / 10"] windows_abcd_xyz
    by blast
  let ?m = "\<lparr>m_strategy = Fuzzy, m_pageNumber = 1, m_index = 0, m_matchedText = js ''abc''\<rparr>"
  have s: "searchPage exampleRuntime (highlightOf (js ''abd'') None) halfTolerance (js ''abd'')
             (js ''abd'') \<lparr>pt_pageNumber = 1, pt_text = js ''abcd''\<rparr> = Some ?m
           \<and> m_strategy ?m = Fuzzy"
    by (simp add: searchPage_abcd_abd)
  have "int (levenshtein (m_matchedText ?m) (js ''abd''))
           \<le> maxDistanceOf (js ''abd'') (matchTolerance halfTolerance)"
    using fuzzySearchWithNormalization_within_double_tolerance
            [of "js ''abcd''" "js ''abd''" "1 / 2" exampleRuntime "highlightOf (js ''abd'') None"
                halfTolerance "js ''abd''" "js ''abd''"
                "\<lparr>pt_pageNumber = 1, pt_text = js ''abcd''\<rparr>" ?m] s
    by blast
  then have 3: "int (levenshtein (js ''abc'') (js ''abd''))
           \<le> maxDistanceOf (js ''abd'') (matchTolerance halfTolerance)"
    by simp
  show ?thesis
    using 1 2 3 by (simp add: fuzzy_abcd_abd maxDistanceOf_examples(1))
qed

end
